theory Spec2Isabelle
  imports Complex_Main "HOL-Library.Signed_Division"
begin

section \<open>Data model of \<^verbatim>\<open>src/js/Scoreboard.js\<close>\<close>

text \<open>
  The embedding follows class \<^verbatim>\<open>Scoreboard\<close>. A JavaScript exception is a value of
  \<open>js_error\<close>; \<^verbatim>\<open>null\<close> and \<^verbatim>\<open>undefined\<close> are \<open>None\<close>. Scores and point indices are
  integers, set numbers are natural numbers.
\<close>

datatype js_error = TypeError

text \<open>
  The \<^verbatim>\<open>set\<close> field of an event: a number for score and set events, the string
  \<^verbatim>\<open>'squad'\<close> for squad scores, absent on a reset event.
\<close>

datatype set_field = SetNum nat | SetSquad | SetAbsent

text \<open>An entry of \<^verbatim>\<open>this.event_history\<close>: \<^verbatim>\<open>{type, team, score, set}\<close>, each field but
  \<^verbatim>\<open>type\<close> possibly missing.\<close>

record event =
  ev_type :: string
  ev_team :: "string option"
  ev_score :: "int option"
  ev_set :: set_field

text \<open>\<^verbatim>\<open>this.gameSettings\<close>.\<close>

record game_settings =
  win_points :: int
  min_win_margin :: int
  set_mode :: string
  hardcap :: int

text \<open>
  The fields of the object that the scoring, rotation and statistics code reads or
  writes. The three \<open>dom_\<close> fields stand for the page elements that \<^verbatim>\<open>getScore\<close>,
  \<^verbatim>\<open>getStartingServer\<close> and \<^verbatim>\<open>getStartingReceiver\<close> read; \<open>authorized\<close> is the outcome
  of the user and channel check at the head of \<^verbatim>\<open>uploadData\<close>.
\<close>

record scoreboard =
  event_history :: "event list"
  active_set :: nat
  gameSettings :: game_settings
  dom_score :: "nat \<Rightarrow> string \<Rightarrow> int"
  dom_starting_server :: "nat \<Rightarrow> string"
  dom_starting_receiver :: "nat \<Rightarrow> string"
  authorized :: bool

text \<open>The constructor's field values, on a page whose score fields hold 0 and whose
  starting server and receiver are not chosen yet.\<close>

definition new_scoreboard :: scoreboard where
  "new_scoreboard =
     \<lparr>event_history = [], active_set = 1,
      gameSettings = \<lparr>win_points = 15, min_win_margin = 2, set_mode = ''3'', hardcap = 21\<rparr>,
      dom_score = (\<lambda>_ _. 0),
      dom_starting_server = (\<lambda>_. ''''),
      dom_starting_receiver = (\<lambda>_. ''''),
      authorized = True\<rparr>"

section \<open>JavaScript primitives\<close>

text \<open>
  JavaScript numbers are IEEE doubles. The model computes on integers and rationals,
  which is what the code computes as long as the integers it meets stay within
  \<^verbatim>\<open>Number.MAX_SAFE_INTEGER\<close>; beyond it the code rounds (\<^verbatim>\<open>pointIndex + 1\<close>,
  \<^verbatim>\<open>pointIndex - 1\<close> and \<^verbatim>\<open>totalPoints - 1\<close> no longer change the number) and the model
  does not follow it. The theorems on the rotation and on the serve info therefore
  bound the point count.
\<close>

definition MAX_SAFE_INTEGER :: int where
  "MAX_SAFE_INTEGER = 9007199254740991"

text \<open>
  The remainder operator \<^verbatim>\<open>%\<close> on numbers: the result has the sign of the dividend.
  The rotation code applies it to half-integers, so it is defined on the rationals
  (on these small dyadic values the floating-point operations are exact); on integers
  it is \<open>smod\<close>.
\<close>

definition js_trunc :: "rat \<Rightarrow> int" where
  "js_trunc x = (if x < 0 then \<lceil>x\<rceil> else \<lfloor>x\<rfloor>)"

definition js_rem :: "rat \<Rightarrow> rat \<Rightarrow> rat" where
  "js_rem x y = x - y * of_int (js_trunc (x / y))"

text \<open>\<^verbatim>\<open>xs[i]\<close>: \<^verbatim>\<open>undefined\<close> outside the array, also at a negative index.\<close>

definition js_nth :: "'a list \<Rightarrow> int \<Rightarrow> 'a option" where
  "js_nth xs i = (if 0 \<le> i \<and> i < int (length xs) then Some (xs ! nat i) else None)"

text \<open>The position at which a \<^verbatim>\<open>$.each\<close> loop that returns \<^verbatim>\<open>false\<close> on its first hit
  stops.\<close>

fun first_index :: "('a \<Rightarrow> bool) \<Rightarrow> 'a list \<Rightarrow> nat option" where
  "first_index P [] = None"
| "first_index P (x # xs) = (if P x then Some 0 else map_option Suc (first_index P xs))"

definition indexOf :: "'a list \<Rightarrow> 'a \<Rightarrow> int" where
  "indexOf xs x = (case first_index (\<lambda>y. y = x) xs of None \<Rightarrow> - 1 | Some i \<Rightarrow> int i)"

text \<open>\<^verbatim>\<open>xs.splice(i, 1)\<close>.\<close>

definition splice1 :: "nat \<Rightarrow> 'a list \<Rightarrow> 'a list" where
  "splice1 i xs = take i xs @ drop (Suc i) xs"

text \<open>\<^verbatim>\<open>toLowerCase\<close> on the letters A to Z. The team names the code writes and compares
  are \<^verbatim>\<open>a\<close> and \<^verbatim>\<open>b\<close>; cased letters outside ASCII are not modelled.\<close>

definition toLowerCase :: "string \<Rightarrow> string" where
  "toLowerCase s =
     map (\<lambda>c. if 65 \<le> (of_char c :: nat) \<and> (of_char c :: nat) \<le> 90
              then char_of ((of_char c :: nat) + 32) else c) s"

text \<open>\<^verbatim>\<open>x && typeof x === 'string'\<close> for a field that holds a string or is missing.\<close>

definition truthy_string :: "string option \<Rightarrow> bool" where
  "truthy_string t = (case t of None \<Rightarrow> False | Some s \<Rightarrow> s \<noteq> [])"

section \<open>Event log\<close>

definition handleEventHistory :: "scoreboard \<Rightarrow> scoreboard" where
  "handleEventHistory st =
     (if length (event_history st) > 200
      then st\<lparr>event_history := drop (length (event_history st) - 200) (event_history st)\<rparr>
      else st)"

text \<open>
  \<^verbatim>\<open>uploadData\<close>, as far as the event log goes: nothing happens when the user may not
  write to the channel; otherwise the log is cut and then written to the store. The
  second component is the \<^verbatim>\<open>event_history\<close> value handed to \<^verbatim>\<open>writeData\<close>.
\<close>

definition uploadData :: "scoreboard \<Rightarrow> scoreboard \<times> event list option" where
  "uploadData st =
     (if \<not> authorized st then (st, None)
      else (let st' = handleEventHistory st in (st', Some (event_history st'))))"

text \<open>The test of \<^verbatim>\<open>removeEventHistoryEvents\<close> on one event.\<close>

definition removalMatch :: "string \<Rightarrow> int \<Rightarrow> nat \<Rightarrow> event \<Rightarrow> bool" where
  "removalMatch team newScore set_no e =
     (ev_type e = ''score'' \<and> ev_team e = Some team
      \<and> (case ev_score e of None \<Rightarrow> False | Some s \<Rightarrow> s > newScore)
      \<and> ev_set e = SetNum set_no)"

definition removeEventHistoryEvents :: "scoreboard \<Rightarrow> string \<Rightarrow> int \<Rightarrow> nat \<Rightarrow> scoreboard" where
  "removeEventHistoryEvents st team newScore set_no =
     (let reversedHistory = rev (event_history st)
      in case first_index (removalMatch team newScore set_no) reversedHistory of
           None \<Rightarrow> st
         | Some index \<Rightarrow>
             st\<lparr>event_history :=
                  splice1 (length (event_history st) - 1 - index) (event_history st)\<rparr>)"

definition getLastResetIndex :: "event list \<Rightarrow> int" where
  "getLastResetIndex h =
     (case first_index (\<lambda>e. ev_type e = ''reset'') (rev h) of
        None \<Rightarrow> - 1
      | Some i \<Rightarrow> int (length h) - 1 - int i)"

definition getScoreHistory :: "scoreboard \<Rightarrow> nat \<Rightarrow> event list" where
  "getScoreHistory st set_no =
     (let startIndex = getLastResetIndex (event_history st);
          slicedEventHistory = drop (nat (startIndex + 1)) (event_history st)
      in filter (\<lambda>e. ev_type e = ''score'' \<and> ev_set e = SetNum set_no
                      \<and> truthy_string (ev_team e) \<and> ev_score e \<noteq> None)
           slicedEventHistory)"

text \<open>
  \<^verbatim>\<open>scoreHistoryToTeamPoints\<close>: the loop, with \<^verbatim>\<open>lastScore\<close> as an argument. A list
  entry \<open>None\<close> is \<^verbatim>\<open>NaN\<close>, which \<^verbatim>\<open>Number\<close> gives for a missing score.
\<close>

fun teamPointsFrom :: "int option \<Rightarrow> string \<Rightarrow> event list \<Rightarrow> int option list" where
  "teamPointsFrom lastScore team [] = []"
| "teamPointsFrom lastScore team (e # es) =
     (if ev_type e = ''score'' \<and> truthy_string (ev_team e)
      then (let lastScore' =
                  (if map_option toLowerCase (ev_team e) = Some (toLowerCase team)
                   then ev_score e else lastScore)
            in lastScore' # teamPointsFrom lastScore' team es)
      else teamPointsFrom lastScore team es)"

definition scoreHistoryToTeamPoints :: "event list \<Rightarrow> string \<Rightarrow> int option list" where
  "scoreHistoryToTeamPoints slicedEventHistory team = teamPointsFrom (Some 0) team slicedEventHistory"

section \<open>Set winner and overtime\<close>

definition getScore :: "scoreboard \<Rightarrow> nat \<Rightarrow> string \<Rightarrow> int" where
  "getScore st set_no team = dom_score st set_no team"

definition setWinner :: "scoreboard \<Rightarrow> nat \<Rightarrow> string option" where
  "setWinner st set_no =
     (let scoreA = getScore st set_no ''a'';
          scoreB = getScore st set_no ''b''
      in if scoreA \<ge> hardcap (gameSettings st) \<or> scoreB \<ge> hardcap (gameSettings st)
         then (if scoreA > scoreB then Some ''a'' else Some ''b'')
         else if (scoreA \<ge> win_points (gameSettings st) \<or> scoreB \<ge> win_points (gameSettings st))
                 \<and> \<bar>scoreA - scoreB\<bar> \<ge> min_win_margin (gameSettings st)
         then (if scoreA > scoreB then Some ''a'' else Some ''b'')
         else None)"

definition getScoreAtPointIndex :: "scoreboard \<Rightarrow> nat \<Rightarrow> string \<Rightarrow> int \<Rightarrow> int" where
  "getScoreAtPointIndex st set_no team pointIndex =
     (let scoreHistory = getScoreHistory st set_no;
          teamPointsList = scoreHistoryToTeamPoints scoreHistory team
      in if pointIndex \<ge> int (length teamPointsList) then getScore st set_no team
         else (case js_nth teamPointsList pointIndex of
                 Some (Some v) \<Rightarrow> v
               | _ \<Rightarrow> 0))"

text \<open>\<^verbatim>\<open>isInOvertime(set, pointIndex)\<close>; \<open>None\<close> is the default \<^verbatim>\<open>pointIndex = null\<close>.\<close>

definition isInOvertime :: "scoreboard \<Rightarrow> nat \<Rightarrow> int option \<Rightarrow> bool" where
  "isInOvertime st set_no pointIndex =
     (let scoreA = (case pointIndex of None \<Rightarrow> getScore st set_no ''a''
                    | Some i \<Rightarrow> getScoreAtPointIndex st set_no ''a'' i);
          scoreB = (case pointIndex of None \<Rightarrow> getScore st set_no ''b''
                    | Some i \<Rightarrow> getScoreAtPointIndex st set_no ''b'' i)
      in if scoreA \<ge> hardcap (gameSettings st) \<or> scoreB \<ge> hardcap (gameSettings st) then True
         else if scoreA \<ge> win_points (gameSettings st) \<or> scoreB \<ge> win_points (gameSettings st)
         then \<bar>scoreA - scoreB\<bar> < min_win_margin (gameSettings st)
         else False)"

section \<open>Serve and receive rotation\<close>

definition getStartingServer :: "scoreboard \<Rightarrow> nat \<Rightarrow> string" where
  "getStartingServer st set_no = dom_starting_server st set_no"

definition getStartingReceiver :: "scoreboard \<Rightarrow> nat \<Rightarrow> string" where
  "getStartingReceiver st set_no = dom_starting_receiver st set_no"

definition getStartingTeam :: "scoreboard \<Rightarrow> nat \<Rightarrow> string option" where
  "getStartingTeam st set_no =
     (let startingServer = getStartingServer st set_no
      in if startingServer \<noteq> []
         then (if startingServer = ''a'' \<or> startingServer = ''b'' then Some ''a'' else Some ''b'')
         else None)"

definition getTotalPointsInSet :: "scoreboard \<Rightarrow> nat \<Rightarrow> int" where
  "getTotalPointsInSet st set_no = getScore st set_no ''a'' + getScore st set_no ''b''"

definition getPlayerTeam :: "string option \<Rightarrow> string option" where
  "getPlayerTeam player =
     (if player = Some ''a'' \<or> player = Some ''b'' then Some ''a''
      else if player = Some ''c'' \<or> player = Some ''d'' then Some ''b''
      else None)"

text \<open>The eight branches that choose \<^verbatim>\<open>serveOrder\<close>; \<open>None\<close> when no branch is taken and
  the variable stays \<^verbatim>\<open>undefined\<close>.\<close>

definition serveOrderFor :: "string \<Rightarrow> string \<Rightarrow> string list option" where
  "serveOrderFor startingServer startingReceiver =
     (if startingServer = ''a'' \<and> startingReceiver = ''c'' then Some [''a'', ''d'', ''b'', ''c'']
      else if startingServer = ''a'' \<and> startingReceiver = ''d'' then Some [''a'', ''c'', ''b'', ''d'']
      else if startingServer = ''b'' \<and> startingReceiver = ''c'' then Some [''b'', ''d'', ''a'', ''c'']
      else if startingServer = ''b'' \<and> startingReceiver = ''d'' then Some [''b'', ''c'', ''a'', ''d'']
      else if startingServer = ''c'' \<and> startingReceiver = ''a'' then Some [''c'', ''b'', ''d'', ''a'']
      else if startingServer = ''c'' \<and> startingReceiver = ''b'' then Some [''c'', ''a'', ''d'', ''b'']
      else if startingServer = ''d'' \<and> startingReceiver = ''a'' then Some [''d'', ''b'', ''c'', ''a'']
      else if startingServer = ''d'' \<and> startingReceiver = ''b'' then Some [''d'', ''a'', ''c'', ''b'']
      else None)"

definition getServingPlayerAtPoint :: "scoreboard \<Rightarrow> int \<Rightarrow> nat \<Rightarrow> js_error + string option" where
  "getServingPlayerAtPoint st pointIndex set_no =
     (let startingServer = getStartingServer st set_no;
          startingReceiver = getStartingReceiver st set_no;
          isOvertime = isInOvertime st set_no (Some pointIndex)
      in case serveOrderFor startingServer startingReceiver of
           None \<Rightarrow> Inl TypeError
         | Some serveOrder \<Rightarrow>
             (let startIndex = indexOf serveOrder startingServer
              in if pointIndex = 0 then Inr (Some startingServer)
                 else if \<not> isOvertime
                 then (let steps = \<lfloor>js_rem ((of_int pointIndex + 1) / 2) 4\<rfloor>
                       in Inr (js_nth serveOrder ((startIndex + steps) smod 4)))
                 else (let pointsTillOvertime = win_points (gameSettings st) * 2 - 2;
                           steps = \<lfloor>js_rem (js_rem ((of_int pointsTillOvertime + 1) / 2) 4
                                          + js_rem (of_int (pointIndex - pointsTillOvertime)) 4) 4\<rfloor>
                       in Inr (js_nth serveOrder ((startIndex + steps) smod 4)))))"

text \<open>The eight branches that choose \<^verbatim>\<open>receivingOrder\<close>, \<^verbatim>\<open>overtimeOrder15\<close> and
  \<^verbatim>\<open>overtimeOrder21\<close>.\<close>

definition receivingOrdersFor ::
  "string \<Rightarrow> string \<Rightarrow> (string list \<times> string list \<times> string list) option" where
  "receivingOrdersFor startingServer startingReceiver =
     (if startingServer = ''a'' \<and> startingReceiver = ''c''
      then Some ([''c'', ''b'', ''a'', ''c'', ''d'', ''a'', ''b'', ''d''],
                 [''a'', ''d'', ''b'', ''c''], [''b'', ''d'', ''a'', ''c''])
      else if startingServer = ''a'' \<and> startingReceiver = ''d''
      then Some ([''d'', ''b'', ''a'', ''d'', ''c'', ''a'', ''b'', ''c''],
                 [''a'', ''c'', ''b'', ''d''], [''b'', ''c'', ''a'', ''d''])
      else if startingServer = ''b'' \<and> startingReceiver = ''c''
      then Some ([''c'', ''a'', ''b'', ''c'', ''d'', ''b'', ''a'', ''d''],
                 [''b'', ''d'', ''a'', ''c''], [''a'', ''d'', ''b'', ''c''])
      else if startingServer = ''b'' \<and> startingReceiver = ''d''
      then Some ([''d'', ''a'', ''b'', ''d'', ''c'', ''b'', ''a'', ''c''],
                 [''b'', ''c'', ''a'', ''d''], [''a'', ''c'', ''b'', ''d''])
      else if startingServer = ''c'' \<and> startingReceiver = ''a''
      then Some ([''a'', ''d'', ''c'', ''a'', ''b'', ''c'', ''d'', ''b''],
                 [''c'', ''b'', ''d'', ''a''], [''d'', ''b'', ''c'', ''a''])
      else if startingServer = ''c'' \<and> startingReceiver = ''b''
      then Some ([''b'', ''d'', ''c'', ''b'', ''a'', ''c'', ''d'', ''a''],
                 [''c'', ''a'', ''d'', ''b''], [''d'', ''a'', ''c'', ''b''])
      else if startingServer = ''d'' \<and> startingReceiver = ''a''
      then Some ([''a'', ''c'', ''d'', ''a'', ''b'', ''d'', ''c'', ''b''],
                 [''d'', ''b'', ''c'', ''a''], [''c'', ''b'', ''d'', ''a''])
      else if startingServer = ''d'' \<and> startingReceiver = ''b''
      then Some ([''b'', ''c'', ''d'', ''b'', ''a'', ''d'', ''c'', ''a''],
                 [''d'', ''a'', ''c'', ''b''], [''c'', ''a'', ''d'', ''b''])
      else None)"

definition getReceivingPlayerAtPoint :: "scoreboard \<Rightarrow> int \<Rightarrow> nat \<Rightarrow> js_error + string option" where
  "getReceivingPlayerAtPoint st pointIndex set_no =
     (let startingServer = getStartingServer st set_no;
          startingReceiver = getStartingReceiver st set_no;
          isOvertime = isInOvertime st set_no (Some pointIndex)
      in case receivingOrdersFor startingServer startingReceiver of
           None \<Rightarrow> Inl TypeError
         | Some (receivingOrder, overtimeOrder15, overtimeOrder21) \<Rightarrow>
             (let startIndex = indexOf receivingOrder startingReceiver
              in if pointIndex = 0 then Inr (Some startingReceiver)
                 else if \<not> isOvertime
                 then (let steps = pointIndex smod 8
                       in Inr (js_nth receivingOrder ((startIndex + steps) smod 8)))
                 else (let steps = (pointIndex - 1) smod 4
                       in if win_points (gameSettings st) = 15
                          then Inr (js_nth overtimeOrder15 ((startIndex + steps) smod 4))
                          else Inr (js_nth overtimeOrder21 ((startIndex + steps) smod 4)))))"

text \<open>The pairs for which one of the eight branches is taken.\<close>

definition valid_config :: "string \<Rightarrow> string \<Rightarrow> bool" where
  "valid_config startingServer startingReceiver =
     ((startingServer = ''a'' \<and> startingReceiver = ''c'') \<or>
      (startingServer = ''a'' \<and> startingReceiver = ''d'') \<or>
      (startingServer = ''b'' \<and> startingReceiver = ''c'') \<or>
      (startingServer = ''b'' \<and> startingReceiver = ''d'') \<or>
      (startingServer = ''c'' \<and> startingReceiver = ''a'') \<or>
      (startingServer = ''c'' \<and> startingReceiver = ''b'') \<or>
      (startingServer = ''d'' \<and> startingReceiver = ''a'') \<or>
      (startingServer = ''d'' \<and> startingReceiver = ''b''))"

text \<open>Two players of different teams: one of \<^verbatim>\<open>a\<close>, \<^verbatim>\<open>b\<close> and one of \<^verbatim>\<open>c\<close>, \<^verbatim>\<open>d\<close>.\<close>

definition opposite_teams :: "string option \<Rightarrow> string option \<Rightarrow> bool" where
  "opposite_teams server receiver =
     ((getPlayerTeam server = Some ''a'' \<and> getPlayerTeam receiver = Some ''b'') \<or>
      (getPlayerTeam server = Some ''b'' \<and> getPlayerTeam receiver = Some ''a''))"

text \<open>\<^verbatim>\<open>updateCurrentPlayersDisplay\<close>: the two players whose names are shown, \<open>None\<close> when
  the display shows dashes.\<close>

definition updateCurrentPlayersDisplay :: "scoreboard \<Rightarrow> js_error + (string \<times> string) option" where
  "updateCurrentPlayersDisplay st =
     (let totalPoints = getTotalPointsInSet st (active_set st)
      in case getServingPlayerAtPoint st totalPoints (active_set st) of
           Inl err \<Rightarrow> Inl err
         | Inr server \<Rightarrow>
             (case getReceivingPlayerAtPoint st totalPoints (active_set st) of
                Inl err \<Rightarrow> Inl err
              | Inr receiver \<Rightarrow>
                  (case (server, receiver) of
                     (Some s, Some r) \<Rightarrow>
                       (if s \<noteq> [] \<and> r \<noteq> [] then Inr (Some (s, r)) else Inr None)
                   | _ \<Rightarrow> Inr None)))"

record serve_info =
  serve_team :: string
  serveNumber :: int
  serve_isOvertime :: bool

definition getServeInfo :: "scoreboard \<Rightarrow> serve_info option" where
  "getServeInfo st =
     (case getStartingTeam st (active_set st) of
        None \<Rightarrow> None
      | Some startingTeam \<Rightarrow>
          (let totalPoints = getTotalPointsInSet st (active_set st);
               isOvertime = isInOvertime st (active_set st) None
           in if isOvertime
              then (let servingTeam = (if totalPoints smod 2 = 0 then startingTeam
                                       else (if startingTeam = ''a'' then ''b'' else ''a''))
                    in Some \<lparr>serve_team = servingTeam, serveNumber = 1, serve_isOvertime = True\<rparr>)
              else if totalPoints = 0
              then Some \<lparr>serve_team = startingTeam, serveNumber = 1, serve_isOvertime = False\<rparr>
              else (let servesAfterFirst = totalPoints - 1;
                        serveGroup = \<lfloor>(of_int servesAfterFirst :: rat) / 2\<rfloor>;
                        isStartingTeamServe = (serveGroup smod 2 = 0);
                        servingTeam = (if isStartingTeamServe
                                       then (if startingTeam = ''a'' then ''b'' else ''a'')
                                       else startingTeam);
                        serveNumber = (servesAfterFirst smod 2) + 1
                    in Some \<lparr>serve_team = servingTeam, serveNumber = serveNumber,
                             serve_isOvertime = False\<rparr>)))"

section \<open>Statistics\<close>

text \<open>
  The counts of \<^verbatim>\<open>calculateStatistics\<close>. The percentages, which the function derives
  from the counts at its end by floating-point division and \<^verbatim>\<open>Math.round\<close>, are left
  out.
\<close>

record team_stats =
  breaks :: nat
  breakOpportunities :: nat

record player_stats =
  sideouts :: nat
  sideoutOpportunities :: nat
  player_breaks :: nat
  player_breakOpportunities :: nat

record statistics =
  teamA :: team_stats
  teamB :: team_stats
  players :: "string \<rightharpoonup> player_stats"

definition initial_statistics :: statistics where
  "initial_statistics =
     (let zero = \<lparr>sideouts = 0, sideoutOpportunities = 0, player_breaks = 0,
                  player_breakOpportunities = 0\<rparr>
      in \<lparr>teamA = \<lparr>breaks = 0, breakOpportunities = 0\<rparr>,
          teamB = \<lparr>breaks = 0, breakOpportunities = 0\<rparr>,
          players = [''a'' \<mapsto> zero, ''b'' \<mapsto> zero, ''c'' \<mapsto> zero, ''d'' \<mapsto> zero]\<rparr>)"

text \<open>Sequencing of statements that may throw.\<close>

definition and_then :: "js_error + 'a \<Rightarrow> ('a \<Rightarrow> js_error + 'b) \<Rightarrow> js_error + 'b" where
  "and_then r f = (case r of Inl err \<Rightarrow> Inl err | Inr x \<Rightarrow> f x)"

text \<open>
  An update of \<^verbatim>\<open>stats[`team${t.toUpperCase()}`]\<close> and of \<^verbatim>\<open>stats.players[p]\<close>: a
  \<^verbatim>\<open>TypeError\<close> when the object has no such entry. The team \<open>t\<close> is a result of
  \<^verbatim>\<open>getPlayerTeam\<close> at both calls, so it is \<^verbatim>\<open>a\<close>, \<^verbatim>\<open>b\<close> or missing.
\<close>

definition update_team ::
  "string \<Rightarrow> (team_stats \<Rightarrow> team_stats) \<Rightarrow> statistics \<Rightarrow> js_error + statistics" where
  "update_team t f stats =
     (if t = ''a'' then Inr (stats\<lparr>teamA := f (teamA stats)\<rparr>)
      else if t = ''b'' then Inr (stats\<lparr>teamB := f (teamB stats)\<rparr>)
      else Inl TypeError)"

definition update_player ::
  "string option \<Rightarrow> (player_stats \<Rightarrow> player_stats) \<Rightarrow> statistics \<Rightarrow> js_error + statistics" where
  "update_player p f stats =
     (case p of
        None \<Rightarrow> Inl TypeError
      | Some name \<Rightarrow>
          (case players stats name of
             None \<Rightarrow> Inl TypeError
           | Some ps \<Rightarrow> Inr (stats\<lparr>players := (players stats)(name \<mapsto> f ps)\<rparr>)))"

text \<open>
  The body of the evaluation loop for one entry \<^verbatim>\<open>{event, index, set}\<close>, where
  \<^verbatim>\<open>set\<close> is the event's own \<^verbatim>\<open>set\<close> field; \<open>countPoint\<close> is its second half, the
  updates of the counters. A set named \<^verbatim>\<open>'squad'\<close> has no starting
  server on the page, so the lookup of the serving player throws as for any pair
  outside the eight.
\<close>

definition countPoint ::
  "statistics \<Rightarrow> string \<Rightarrow> string option \<Rightarrow> string option \<Rightarrow> js_error + statistics" where
  "countPoint stats team servingPlayer receivingPlayer =
     (let servingTeam = getPlayerTeam servingPlayer;
          isBreak = (servingTeam = Some team)
      in case servingTeam of
           None \<Rightarrow> Inl TypeError
         | Some sTeam \<Rightarrow>
             and_then (update_team sTeam
                         (\<lambda>t. t\<lparr>breakOpportunities := breakOpportunities t + 1\<rparr>) stats)
               (\<lambda>s1.
             and_then (update_player servingPlayer
                         (\<lambda>q. q\<lparr>player_breakOpportunities := player_breakOpportunities q + 1\<rparr>) s1)
               (\<lambda>s2.
             and_then (update_player receivingPlayer
                         (\<lambda>q. q\<lparr>sideoutOpportunities := sideoutOpportunities q + 1\<rparr>) s2)
               (\<lambda>s3.
             if isBreak
             then and_then (update_team team (\<lambda>t. t\<lparr>breaks := breaks t + 1\<rparr>) s3)
                    (\<lambda>s4. update_player servingPlayer
                             (\<lambda>q. q\<lparr>player_breaks := player_breaks q + 1\<rparr>) s4)
             else update_player receivingPlayer (\<lambda>q. q\<lparr>sideouts := sideouts q + 1\<rparr>) s3))))"

definition processPoint :: "scoreboard \<Rightarrow> statistics \<Rightarrow> event \<Rightarrow> int \<Rightarrow> js_error + statistics" where
  "processPoint st stats ev index =
     (case ev_team ev of
        None \<Rightarrow> Inr stats
      | Some evTeam \<Rightarrow>
          (if evTeam = [] then Inr stats
           else (case ev_set ev of
                   SetAbsent \<Rightarrow> Inr stats
                 | SetSquad \<Rightarrow> Inl TypeError
                 | SetNum set_no \<Rightarrow>
                     (if set_no = 0 then Inr stats
                      else (let team = toLowerCase evTeam
                            in and_then (getServingPlayerAtPoint st index set_no)
                                 (\<lambda>servingPlayer.
                               and_then (getReceivingPlayerAtPoint st index set_no)
                                 (\<lambda>receivingPlayer.
                               countPoint stats team servingPlayer receivingPlayer)))))))"

text \<open>The loop over \<^verbatim>\<open>eventsToProcess\<close>; an exception ends it.\<close>

fun processPoints :: "scoreboard \<Rightarrow> statistics \<Rightarrow> event list \<Rightarrow> int \<Rightarrow> js_error + statistics" where
  "processPoints st stats [] index = Inr stats"
| "processPoints st stats (ev # evs) index =
     and_then (processPoint st stats ev index) (\<lambda>stats'. processPoints st stats' evs (index + 1))"

text \<open>
  \<^verbatim>\<open>calculateStatistics(type, set)\<close> for a \<^verbatim>\<open>type\<close> other than \<^verbatim>\<open>'game'\<close>: the statistics
  of one set, whose events are \<^verbatim>\<open>getScoreHistory(set)\<close>, each with its array index.
\<close>

definition calculateStatistics_set :: "scoreboard \<Rightarrow> nat \<Rightarrow> js_error + statistics" where
  "calculateStatistics_set st set_no =
     (let scoreEvents = getScoreHistory st set_no
      in processPoints st initial_statistics scoreEvents 0)"

text \<open>The sum of \<^verbatim>\<open>sideoutOpportunities\<close> over the players \<^verbatim>\<open>a\<close>, \<^verbatim>\<open>b\<close>, \<^verbatim>\<open>c\<close>, \<^verbatim>\<open>d\<close>.\<close>

definition sideoutOpportunities_of :: "statistics \<Rightarrow> string \<Rightarrow> nat" where
  "sideoutOpportunities_of stats p =
     (case players stats p of None \<Rightarrow> 0 | Some ps \<Rightarrow> sideoutOpportunities ps)"

definition total_sideoutOpportunities :: "statistics \<Rightarrow> nat" where
  "total_sideoutOpportunities stats =
     sideoutOpportunities_of stats ''a'' + sideoutOpportunities_of stats ''b''
     + sideoutOpportunities_of stats ''c'' + sideoutOpportunities_of stats ''d''"

text \<open>The four entries of \<^verbatim>\<open>stats.players\<close> exist.\<close>

definition players_present :: "statistics \<Rightarrow> bool" where
  "players_present stats =
     (players stats ''a'' \<noteq> None \<and> players stats ''b'' \<noteq> None
      \<and> players stats ''c'' \<noteq> None \<and> players stats ''d'' \<noteq> None)"

section \<open>Score input\<close>

text \<open>
  The handler of a score field's \<^verbatim>\<open>input\<close> event. \<open>team\<close> and \<open>set_no\<close> are what
  \<^verbatim>\<open>getScoreElemDetails\<close> reads off the field, \<open>newScore\<close> is the field's value and
  \<open>isSquadScore\<close> tells a squad score field. \<open>scoreInput_oldScore\<close> is the backwards
  scan for \<^verbatim>\<open>oldScore\<close>; \<open>scoreInput\<close> is the handler up to its change of the event
  history; \<open>scoreInputHandler\<close> adds the two calls that end the handler and returns the
  exception, if one ended it. Both scores have passed through \<^verbatim>\<open>|| 0\<close>, so the handler's
  test that neither is \<^verbatim>\<open>NaN\<close> always succeeds.
\<close>

definition scoreInput_oldScore :: "scoreboard \<Rightarrow> string \<Rightarrow> nat \<Rightarrow> bool \<Rightarrow> int" where
  "scoreInput_oldScore st team set_no isSquadScore =
     (let eventType = (if isSquadScore then ''squad_score'' else ''score'')
      in case find (\<lambda>ev. ev_type ev = eventType \<and> ev_team ev = Some team
                          \<and> (isSquadScore \<or> ev_set ev = SetNum set_no))
                (rev (event_history st)) of
           None \<Rightarrow> 0
         | Some ev \<Rightarrow> (case ev_score ev of None \<Rightarrow> 0 | Some s \<Rightarrow> s))"

definition scoreInput :: "scoreboard \<Rightarrow> string \<Rightarrow> nat \<Rightarrow> int \<Rightarrow> bool \<Rightarrow> scoreboard" where
  "scoreInput st team set_no newScore isSquadScore =
     (let eventType = (if isSquadScore then ''squad_score'' else ''score'');
          oldScore = scoreInput_oldScore st team set_no isSquadScore
      in if newScore < oldScore \<and> \<not> isSquadScore
         then removeEventHistoryEvents st team newScore set_no
         else st\<lparr>event_history := event_history st @
                   [\<lparr>ev_type = eventType, ev_team = Some team, ev_score = Some newScore,
                     ev_set = (if isSquadScore then SetSquad else SetNum set_no)\<rparr>]\<rparr>)"

definition scoreInputHandler ::
  "scoreboard \<Rightarrow> string \<Rightarrow> nat \<Rightarrow> int \<Rightarrow> bool \<Rightarrow> scoreboard \<times> js_error option" where
  "scoreInputHandler st team set_no newScore isSquadScore =
     (let st1 = scoreInput st team set_no newScore isSquadScore
      in case updateCurrentPlayersDisplay st1 of
           Inl err \<Rightarrow> (st1, Some err)
         | Inr _ \<Rightarrow> (fst (uploadData st1), None))"

text \<open>The handler of the set counter's \<^verbatim>\<open>input\<close> event, as far as the event log goes:
  after \<^verbatim>\<open>updateSets\<close> it appends a set event and calls nothing else.\<close>

definition setCounterInput :: "scoreboard \<Rightarrow> scoreboard" where
  "setCounterInput st =
     st\<lparr>event_history := event_history st @
          [\<lparr>ev_type = ''set'', ev_team = None, ev_score = None, ev_set = SetNum (active_set st)\<rparr>]\<rparr>"

section \<open>Concrete boards\<close>

text \<open>A board whose sets all show the scores \<open>a\<close> and \<open>b\<close>, under the given settings.\<close>

definition board_with :: "int \<Rightarrow> int \<Rightarrow> int \<Rightarrow> int \<Rightarrow> int \<Rightarrow> scoreboard" where
  "board_with wp hc margin a b =
     new_scoreboard
       \<lparr>gameSettings := \<lparr>win_points = wp, min_win_margin = margin, set_mode = ''3'', hardcap = hc\<rparr>,
        dom_score := (\<lambda>_ team. if team = ''a'' then a else if team = ''b'' then b else 0)\<rparr>"

text \<open>The same board with a starting server and a starting receiver chosen for every set
  and a win margin of 2.\<close>

definition rotation_board :: "string \<Rightarrow> string \<Rightarrow> int \<Rightarrow> int \<Rightarrow> int \<Rightarrow> int \<Rightarrow> scoreboard" where
  "rotation_board s r wp hc a b =
     (board_with wp hc 2 a b)\<lparr>dom_starting_server := (\<lambda>_. s), dom_starting_receiver := (\<lambda>_. r)\<rparr>"

text \<open>The event a score field's handler appends, a reset event and a set change event.\<close>

definition score_event :: "string \<Rightarrow> nat \<Rightarrow> int \<Rightarrow> event" where
  "score_event t n s = \<lparr>ev_type = ''score'', ev_team = Some t, ev_score = Some s, ev_set = SetNum n\<rparr>"

definition reset_event :: event where
  "reset_event = \<lparr>ev_type = ''reset'', ev_team = None, ev_score = None, ev_set = SetAbsent\<rparr>"

definition set_event :: "nat \<Rightarrow> event" where
  "set_event n = \<lparr>ev_type = ''set'', ev_team = None, ev_score = None, ev_set = SetNum n\<rparr>"

text \<open>A board with a valid starting pair, an authorised user and a log of 200 events.\<close>

definition full_log_board :: scoreboard where
  "full_log_board =
     (rotation_board ''a'' ''c'' 15 21 2 0)
       \<lparr>event_history := replicate 200 (score_event ''a'' 1 1)\<rparr>"

section \<open>Set winner: theorems\<close>

lemma setWinner_board_with:
  "setWinner (board_with wp hc margin a b) n =
     (if a \<ge> hc \<or> b \<ge> hc then (if a > b then Some ''a'' else Some ''b'')
      else if (a \<ge> wp \<or> b \<ge> wp) \<and> \<bar>a - b\<bar> \<ge> margin
      then (if a > b then Some ''a'' else Some ''b'') else None)"
  by (simp add: setWinner_def getScore_def board_with_def new_scoreboard_def)

text \<open>
  C2. Whatever the scores and the settings: once a score has reached the hardcap the
  winner is the team with the higher score, with no look at the margin; below the
  hardcap the winner is the team with the higher score as soon as a score has reached
  \<open>win_points\<close> and the scores differ by \<open>min_win_margin\<close> or more; in every other case
  there is no winner. The statement holds for all integer scores, the nonnegative ones
  among them.
\<close>

theorem setWinner_rules:
  assumes "scoreA = getScore st set_no ''a''" and "scoreB = getScore st set_no ''b''"
    and "hc = hardcap (gameSettings st)" and "wp = win_points (gameSettings st)"
    and "margin = min_win_margin (gameSettings st)"
  shows "(hc \<le> scoreA \<or> hc \<le> scoreB \<longrightarrow>
            (scoreB < scoreA \<longrightarrow> setWinner st set_no = Some ''a'') \<and>
            (scoreA < scoreB \<longrightarrow> setWinner st set_no = Some ''b''))
       \<and> (\<not> (hc \<le> scoreA \<or> hc \<le> scoreB) \<and> (wp \<le> scoreA \<or> wp \<le> scoreB)
            \<and> margin \<le> \<bar>scoreA - scoreB\<bar> \<longrightarrow>
            (scoreB < scoreA \<longrightarrow> setWinner st set_no = Some ''a'') \<and>
            (scoreA < scoreB \<longrightarrow> setWinner st set_no = Some ''b''))
       \<and> (\<not> (hc \<le> scoreA \<or> hc \<le> scoreB)
            \<and> \<not> ((wp \<le> scoreA \<or> wp \<le> scoreB) \<and> margin \<le> \<bar>scoreA - scoreB\<bar>) \<longrightarrow>
            setWinner st set_no = None)"
  using assms by (simp add: setWinner_def Let_def)

theorem setWinner_rules_witness:
  "setWinner (board_with 21 25 2 25 24) 1 = Some ''a''
   \<and> setWinner (board_with 21 25 2 19 21) 1 = Some ''b''
   \<and> setWinner (board_with 21 25 2 21 20) 1 = None"
proof -
  have a: "setWinner (board_with 21 25 2 25 24) 1 = Some ''a''"
    using setWinner_rules [of 25 "board_with 21 25 2 25 24" 1 24 25 21 2]
    by (simp add: getScore_def board_with_def new_scoreboard_def)
  have b: "setWinner (board_with 21 25 2 19 21) 1 = Some ''b''"
    using setWinner_rules [of 19 "board_with 21 25 2 19 21" 1 21 25 21 2]
    by (simp add: getScore_def board_with_def new_scoreboard_def)
  have c: "setWinner (board_with 21 25 2 21 20) 1 = None"
    using setWinner_rules [of 21 "board_with 21 25 2 21 20" 1 20 25 21 2]
    by (simp add: getScore_def board_with_def new_scoreboard_def)
  from a b c show ?thesis by simp
qed

text \<open>
  C3, as stated, has \<^verbatim>\<open>setWinner\<close> return no winner at 21:19 under win_points 21,
  hardcap 25 and margin 2. The code returns team \<^verbatim>\<open>a\<close>: 21 has reached
  \<open>win_points\<close> and the margin of 2 is met.
\<close>

theorem setWinner_examples_counterexample:
  "setWinner (board_with 21 25 2 21 19) 1 \<noteq> None"
  by (simp add: setWinner_board_with)

text \<open>
  C3, amended. Under win_points 21, hardcap 25 and margin 2, \<^verbatim>\<open>setWinner\<close> returns team
  \<^verbatim>\<open>a\<close> at 21:19, at 23:21 and at 25:23.
\<close>

theorem setWinner_examples:
  "setWinner (board_with 21 25 2 21 19) 1 = Some ''a''
   \<and> setWinner (board_with 21 25 2 23 21) 1 = Some ''a''
   \<and> setWinner (board_with 21 25 2 25 23) 1 = Some ''a''"
  by (simp add: setWinner_board_with)

text \<open>
  C10. When both teams have the same score and that score has reached the hardcap,
  \<^verbatim>\<open>setWinner\<close> returns team \<^verbatim>\<open>b\<close>, for every setting of \<open>win_points\<close> and margin.
\<close>

theorem setWinner_tie_at_hardcap:
  "getScore st set_no ''a'' = getScore st set_no ''b''
   \<Longrightarrow> hardcap (gameSettings st) \<le> getScore st set_no ''a''
   \<Longrightarrow> setWinner st set_no = Some ''b''"
  by (simp add: setWinner_def Let_def)

theorem setWinner_tie_at_hardcap_witness:
  "setWinner (board_with 15 21 2 21 21) 1 = Some ''b''"
  using setWinner_tie_at_hardcap [of "board_with 15 21 2 21 21" 1]
  by (simp add: getScore_def board_with_def new_scoreboard_def)

section \<open>Event log: theorems\<close>

lemma first_index_None: "first_index P xs = None \<longleftrightarrow> (\<forall>x\<in>set xs. \<not> P x)"
  by (induction xs) auto

lemma first_index_split:
  "first_index P xs = Some i \<Longrightarrow>
     \<exists>ys z zs. xs = ys @ z # zs \<and> length ys = i \<and> P z \<and> (\<forall>y\<in>set ys. \<not> P y)"
proof (induction xs arbitrary: i)
  case Nil
  then show ?case by simp
next
  case (Cons x xs)
  show ?case
  proof (cases "P x")
    case True
    then have "i = 0" using Cons.prems by simp
    then show ?thesis using True by (intro exI [of _ "[]"]) simp
  next
    case False
    then obtain j where j: "first_index P xs = Some j" and i: "i = Suc j"
      using Cons.prems by auto
    from Cons.IH [OF j] obtain ys z zs where
      "xs = ys @ z # zs" "length ys = j" "P z" "\<forall>y\<in>set ys. \<not> P y" by blast
    then show ?thesis
      using False i by (intro exI [of _ "x # ys"]) auto
  qed
qed

lemma first_index_rev_split:
  assumes "first_index P (rev h) = Some i"
  shows "\<exists>pre e post. h = pre @ e # post \<and> length post = i \<and> P e \<and> (\<forall>x\<in>set post. \<not> P x)"
proof -
  from first_index_split [OF assms] obtain ys z zs where
    r: "rev h = ys @ z # zs" and l: "length ys = i" and z: "P z" and n: "\<forall>y\<in>set ys. \<not> P y"
    by blast
  from r have "h = rev zs @ z # rev ys"
    by (metis rev_append rev.simps(2) rev_rev_ident append_assoc append_Cons append_Nil)
  then show ?thesis using l z n by (intro exI [of _ "rev zs"] exI [of _ z] exI [of _ "rev ys"]) simp
qed

lemma first_index_unique_split:
  assumes "h = pre @ e # post" and "P e" and "\<forall>x\<in>set post. \<not> P x"
  shows "first_index P (rev h) = Some (length post)"
proof -
  have "first_index P (ys @ e # zs) = Some (length ys)" if "\<forall>y\<in>set ys. \<not> P y" for ys zs
    using that assms(2) by (induction ys) auto
  from this [of "rev post" "rev pre"] show ?thesis
    using assms(1,3) by simp
qed

lemma getLastResetIndex_none:
  assumes "\<forall>e\<in>set h. ev_type e \<noteq> ''reset''"
  shows "getLastResetIndex h = - 1"
proof -
  have "first_index (\<lambda>e. ev_type e = ''reset'') (rev h) = None"
    using assms by (simp add: first_index_None)
  then show ?thesis by (simp add: getLastResetIndex_def)
qed

lemma getLastResetIndex_last:
  assumes "h = pre @ r # post" and "ev_type r = ''reset''" and "\<forall>e\<in>set post. ev_type e \<noteq> ''reset''"
  shows "getLastResetIndex h = int (length pre)"
  using first_index_unique_split [of h pre r post "\<lambda>e. ev_type e = ''reset''"] assms
  by (simp add: getLastResetIndex_def)

text \<open>
  C5, amended. \<^verbatim>\<open>getScoreHistory(set)\<close> returns, in the order of the log, the events
  after the most recent \<^verbatim>\<open>reset\<close> event (all events when the log has no reset) that
  have type \<^verbatim>\<open>score\<close>, belong to the set, carry a non-empty team name and carry a
  score. Nothing at or before the last reset, of another set or of another type is
  returned.
\<close>

theorem getScoreHistory_after_last_reset:
  "((\<forall>e\<in>set (event_history st). ev_type e \<noteq> ''reset'') \<longrightarrow>
      getScoreHistory st set_no =
        filter (\<lambda>e. ev_type e = ''score'' \<and> ev_set e = SetNum set_no
                     \<and> truthy_string (ev_team e) \<and> ev_score e \<noteq> None) (event_history st))
   \<and> (\<forall>pre r post. event_history st = pre @ r # post \<and> ev_type r = ''reset''
          \<and> (\<forall>e\<in>set post. ev_type e \<noteq> ''reset'') \<longrightarrow>
      getScoreHistory st set_no =
        filter (\<lambda>e. ev_type e = ''score'' \<and> ev_set e = SetNum set_no
                     \<and> truthy_string (ev_team e) \<and> ev_score e \<noteq> None) post)"
proof (intro conjI impI allI)
  assume "\<forall>e\<in>set (event_history st). ev_type e \<noteq> ''reset''"
  then show "getScoreHistory st set_no =
        filter (\<lambda>e. ev_type e = ''score'' \<and> ev_set e = SetNum set_no
                     \<and> truthy_string (ev_team e) \<and> ev_score e \<noteq> None) (event_history st)"
    by (simp add: getScoreHistory_def getLastResetIndex_none)
next
  fix pre r post
  assume a: "event_history st = pre @ r # post \<and> ev_type r = ''reset''
          \<and> (\<forall>e\<in>set post. ev_type e \<noteq> ''reset'')"
  then have "getLastResetIndex (event_history st) = int (length pre)"
    by (intro getLastResetIndex_last [of _ pre r post]) simp_all
  then show "getScoreHistory st set_no =
        filter (\<lambda>e. ev_type e = ''score'' \<and> ev_set e = SetNum set_no
                     \<and> truthy_string (ev_team e) \<and> ev_score e \<noteq> None) post"
    using a by (simp add: getScoreHistory_def nat_add_distrib)
qed

theorem getScoreHistory_after_last_reset_witness:
  "getScoreHistory
     (new_scoreboard\<lparr>event_history :=
        [score_event ''a'' 1 1, reset_event, score_event ''b'' 1 1, set_event 2,
         score_event ''a'' 2 1, score_event ''a'' 1 1]\<rparr>) 1
   = [score_event ''b'' 1 1, score_event ''a'' 1 1]
   \<and> getScoreHistory
     (new_scoreboard\<lparr>event_history := [score_event ''a'' 1 1, score_event ''a'' 2 1]\<rparr>) 2
   = [score_event ''a'' 2 1]"
proof -
  let ?bd = "new_scoreboard\<lparr>event_history :=
        [score_event ''a'' 1 1, reset_event, score_event ''b'' 1 1, set_event 2,
         score_event ''a'' 2 1, score_event ''a'' 1 1]\<rparr>"
  let ?bd2 = "new_scoreboard\<lparr>event_history := [score_event ''a'' 1 1, score_event ''a'' 2 1]\<rparr>"
  have "event_history ?bd = [score_event ''a'' 1 1] @ reset_event #
          [score_event ''b'' 1 1, set_event 2, score_event ''a'' 2 1, score_event ''a'' 1 1]
        \<and> ev_type reset_event = ''reset''
        \<and> (\<forall>e\<in>set [score_event ''b'' 1 1, set_event 2, score_event ''a'' 2 1, score_event ''a'' 1 1].
              ev_type e \<noteq> ''reset'')"
    by (simp add: score_event_def reset_event_def set_event_def)
  with getScoreHistory_after_last_reset [of ?bd 1]
  have a: "getScoreHistory ?bd 1 =
        filter (\<lambda>e. ev_type e = ''score'' \<and> ev_set e = SetNum 1
                     \<and> truthy_string (ev_team e) \<and> ev_score e \<noteq> None)
          [score_event ''b'' 1 1, set_event 2, score_event ''a'' 2 1, score_event ''a'' 1 1]"
    by blast
  have "\<forall>e\<in>set (event_history ?bd2). ev_type e \<noteq> ''reset''"
    by (simp add: score_event_def)
  with getScoreHistory_after_last_reset [of ?bd2 2]
  have b: "getScoreHistory ?bd2 2 =
        filter (\<lambda>e. ev_type e = ''score'' \<and> ev_set e = SetNum 2
                     \<and> truthy_string (ev_team e) \<and> ev_score e \<noteq> None) (event_history ?bd2)"
    by blast
  show ?thesis
    unfolding a b by (simp add: score_event_def set_event_def truthy_string_def)
qed

text \<open>
  C5, as stated, keeps every \<^verbatim>\<open>score\<close> event of the set. A \<^verbatim>\<open>score\<close> event of set 1
  that has no team is not returned, although the log has no reset.
\<close>

theorem getScoreHistory_after_last_reset_counterexample:
  "event_history (new_scoreboard\<lparr>event_history :=
       [\<lparr>ev_type = ''score'', ev_team = None, ev_score = Some 1, ev_set = SetNum 1\<rparr>]\<rparr>)
     = [\<lparr>ev_type = ''score'', ev_team = None, ev_score = Some 1, ev_set = SetNum 1\<rparr>]
   \<and> getScoreHistory (new_scoreboard\<lparr>event_history :=
       [\<lparr>ev_type = ''score'', ev_team = None, ev_score = Some 1, ev_set = SetNum 1\<rparr>]\<rparr>) 1 = []"
  by code_simp

lemma splice1_split: "splice1 (length pre) (pre @ e # post) = pre @ post"
  by (simp add: splice1_def)

lemma removeEventHistoryEvents_split:
  "(\<exists>pre e post. event_history st = pre @ e # post \<and> removalMatch team newScore set_no e
       \<and> (\<forall>x\<in>set post. \<not> removalMatch team newScore set_no x)
       \<and> event_history (removeEventHistoryEvents st team newScore set_no) = pre @ post)
   \<or> ((\<forall>x\<in>set (event_history st). \<not> removalMatch team newScore set_no x)
       \<and> event_history (removeEventHistoryEvents st team newScore set_no) = event_history st)"
proof (cases "first_index (removalMatch team newScore set_no) (rev (event_history st))")
  case None
  then have "\<forall>x\<in>set (event_history st). \<not> removalMatch team newScore set_no x"
    by (simp add: first_index_None)
  then show ?thesis
    using None by (simp add: removeEventHistoryEvents_def)
next
  case (Some i)
  from first_index_rev_split [OF Some] obtain pre e post where
    h: "event_history st = pre @ e # post" and l: "length post = i"
    and e: "removalMatch team newScore set_no e"
    and n: "\<forall>x\<in>set post. \<not> removalMatch team newScore set_no x" by blast
  have "length (event_history st) - 1 - i = length pre" using h l by simp
  then have "event_history (removeEventHistoryEvents st team newScore set_no) = pre @ post"
    using Some h by (simp add: removeEventHistoryEvents_def splice1_split)
  then show ?thesis using h e n by blast
qed

lemma uploadData_within_cap:
  "length (event_history st) \<le> 200 \<Longrightarrow> event_history (fst (uploadData st)) = event_history st"
  by (simp add: uploadData_def handleEventHistory_def Let_def)

lemma scoreInputHandler_log:
  "event_history (fst (scoreInputHandler st team set_no newScore isSquadScore))
     = event_history (scoreInput st team set_no newScore isSquadScore)
   \<or> event_history (fst (scoreInputHandler st team set_no newScore isSquadScore))
     = event_history (fst (uploadData (scoreInput st team set_no newScore isSquadScore)))"
  by (simp add: scoreInputHandler_def Let_def split: sum.splits)

text \<open>
  C4. A score input for a score field (not a squad score) whose new score is below the
  old score read from the log removes the most recent event that
  \<^verbatim>\<open>removeEventHistoryEvents\<close> matches (type \<^verbatim>\<open>score\<close>, the team, the set, a score above
  the new one) and nothing else: the other entries stay, in order. When no event
  matches, the log is unchanged. On a log within the cap of 200 entries this is the log
  the whole handler leaves.
\<close>

theorem scoreInput_decrease_removes_one:
  assumes dec: "newScore < scoreInput_oldScore st team set_no False"
  shows "((\<exists>pre e post. event_history st = pre @ e # post
             \<and> removalMatch team newScore set_no e
             \<and> (\<forall>x\<in>set post. \<not> removalMatch team newScore set_no x)
             \<and> event_history (scoreInput st team set_no newScore False) = pre @ post)
          \<or> ((\<forall>x\<in>set (event_history st). \<not> removalMatch team newScore set_no x)
             \<and> event_history (scoreInput st team set_no newScore False) = event_history st))
       \<and> (length (event_history st) \<le> 200 \<longrightarrow>
            event_history (fst (scoreInputHandler st team set_no newScore False))
              = event_history (scoreInput st team set_no newScore False))"
proof -
  have eq: "scoreInput st team set_no newScore False
              = removeEventHistoryEvents st team newScore set_no"
    using dec by (simp add: scoreInput_def Let_def)
  note split = removeEventHistoryEvents_split [of st team newScore set_no]
  have len: "length (event_history (scoreInput st team set_no newScore False))
               \<le> length (event_history st)"
    using split unfolding eq by auto
  have "event_history (fst (scoreInputHandler st team set_no newScore False))
          = event_history (scoreInput st team set_no newScore False)"
    if "length (event_history st) \<le> 200"
    using scoreInputHandler_log [of st team set_no newScore False]
      uploadData_within_cap [of "scoreInput st team set_no newScore False"] len that
    by auto
  then show ?thesis
    using split unfolding eq [symmetric] by blast
qed

theorem scoreInput_decrease_removes_one_witness:
  "(1::int) < scoreInput_oldScore
       ((rotation_board ''a'' ''c'' 15 21 1 2)
          \<lparr>event_history := [score_event ''a'' 1 1, score_event ''b'' 1 1,
                              score_event ''a'' 1 2, score_event ''b'' 1 2]\<rparr>) ''a'' 1 False
   \<and> event_history (scoreInput
       ((rotation_board ''a'' ''c'' 15 21 1 2)
          \<lparr>event_history := [score_event ''a'' 1 1, score_event ''b'' 1 1,
                              score_event ''a'' 1 2, score_event ''b'' 1 2]\<rparr>) ''a'' 1 1 False)
       = [score_event ''a'' 1 1, score_event ''b'' 1 1, score_event ''b'' 1 2]
   \<and> event_history (fst (scoreInputHandler
       ((rotation_board ''a'' ''c'' 15 21 1 2)
          \<lparr>event_history := [score_event ''a'' 1 1, score_event ''b'' 1 1,
                              score_event ''a'' 1 2, score_event ''b'' 1 2]\<rparr>) ''a'' 1 1 False))
       = [score_event ''a'' 1 1, score_event ''b'' 1 1, score_event ''b'' 1 2]"
proof -
  let ?bd = "(rotation_board ''a'' ''c'' 15 21 1 2)
          \<lparr>event_history := [score_event ''a'' 1 1, score_event ''b'' 1 1,
                              score_event ''a'' 1 2, score_event ''b'' 1 2]\<rparr>"
  have dec: "(1::int) < scoreInput_oldScore ?bd ''a'' 1 False"
    by code_simp
  have len: "length (event_history ?bd) \<le> 200"
    by simp
  have log: "event_history (scoreInput ?bd ''a'' 1 1 False)
               = [score_event ''a'' 1 1, score_event ''b'' 1 1, score_event ''b'' 1 2]"
    by code_simp
  from scoreInput_decrease_removes_one [OF dec] len
  have "event_history (fst (scoreInputHandler ?bd ''a'' 1 1 False))
          = event_history (scoreInput ?bd ''a'' 1 1 False)"
    by blast
  then show ?thesis using dec log by simp
qed

section \<open>Arithmetic of the rotation steps\<close>

lemma js_rem_half: "0 \<le> n \<Longrightarrow> js_rem (of_int n / 2) 4 = of_int (n mod 8) / 2"
proof -
  assume n: "0 \<le> n"
  have "of_int n / (2::rat) / 4 = of_int n / of_int 8" by simp
  then have f: "\<lfloor>of_int n / (2::rat) / 4\<rfloor> = n div 8"
    by (simp only: floor_divide_of_int_eq)
  have "\<not> (of_int n / (2::rat) / 4 < 0)" using n by simp
  then have "js_rem (of_int n / 2) 4 = of_int n / 2 - 4 * of_int (n div 8)"
    using f by (simp add: js_rem_def js_trunc_def)
  also have "\<dots> = of_int (n - 8 * (n div 8)) / 2" by simp
  also have "n - 8 * (n div 8) = n mod 8" by (simp add: minus_mult_div_eq_mod)
  finally show ?thesis .
qed

lemma js_rem_int: "0 \<le> d \<Longrightarrow> js_rem (of_int d) 4 = of_int (d mod 4)"
proof -
  assume d: "0 \<le> d"
  have f: "\<lfloor>of_int d / (4::rat)\<rfloor> = d div 4"
    using floor_divide_of_int_eq [of d 4, where ?'a = rat] by simp
  have "\<not> (of_int d / (4::rat) < 0)" using d by simp
  then have "js_rem (of_int d) 4 = of_int d - 4 * of_int (d div 4)"
    using f by (simp add: js_rem_def js_trunc_def)
  also have "\<dots> = of_int (d - 4 * (d div 4))" by simp
  also have "d - 4 * (d div 4) = d mod 4" by (simp add: minus_mult_div_eq_mod)
  finally show ?thesis .
qed

lemma floor_half: "\<lfloor>(of_int k :: rat) / 2\<rfloor> = k div 2"
  using floor_divide_of_int_eq [of k 2, where ?'a = rat] by simp

lemma steps_normal: "0 \<le> p \<Longrightarrow> \<lfloor>js_rem ((of_int p + 1) / 2) 4\<rfloor> = (p + 1) mod 8 div 2"
proof -
  assume "0 \<le> p"
  then have "0 \<le> p + 1" by simp
  then have "js_rem (of_int (p + 1) / 2) 4 = of_int ((p + 1) mod 8) / 2"
    by (rule js_rem_half)
  moreover have "(of_int (p + 1) :: rat) = of_int p + 1" by simp
  ultimately have "js_rem ((of_int p + 1) / 2) 4 = of_int ((p + 1) mod 8) / 2"
    by (simp only:)
  then show ?thesis by (simp only: floor_half)
qed

lemma steps_overtime:
  assumes "0 < wp" and "wp * 2 - 2 \<le> p"
  shows "\<lfloor>js_rem (js_rem ((of_int (wp * 2 - 2) + 1) / 2) 4 + js_rem (of_int (p - (wp * 2 - 2))) 4) 4\<rfloor>
         = ((wp * 2 - 1) mod 8 + 2 * ((p - (wp * 2 - 2)) mod 4)) mod 8 div 2"
proof -
  let ?c = "(wp * 2 - 1) mod 8" and ?d = "(p - (wp * 2 - 2)) mod 4"
  have "0 \<le> wp * 2 - 1" using assms(1) by simp
  then have "js_rem (of_int (wp * 2 - 1) / 2) 4 = of_int ?c / 2"
    by (rule js_rem_half)
  moreover have "(of_int (wp * 2 - 1) :: rat) = of_int (wp * 2 - 2) + 1" by simp
  ultimately have a: "js_rem ((of_int (wp * 2 - 2) + 1) / 2) 4 = of_int ?c / 2"
    by (simp only:)
  have "0 \<le> p - (wp * 2 - 2)" using assms(2) by simp
  then have b: "js_rem (of_int (p - (wp * 2 - 2))) 4 = of_int ?d"
    by (rule js_rem_int)
  have s: "(of_int ?c / 2 + of_int ?d :: rat) = of_int (?c + 2 * ?d) / 2"
    by simp
  have "0 \<le> ?c + 2 * ?d" by simp
  then have "js_rem (of_int (?c + 2 * ?d) / 2) 4 = of_int ((?c + 2 * ?d) mod 8) / 2"
    by (rule js_rem_half)
  then show ?thesis
    by (simp only: a b s floor_half)
qed

lemma smod_nonneg: "0 \<le> a \<Longrightarrow> 0 < n \<Longrightarrow> a smod n = a mod (n::int)"
  by (simp add: signed_modulo_int_def sgn_if)

section \<open>Rotation: theorems\<close>

lemma indexOf_serveOrder: "serveOrderFor s r = Some so \<Longrightarrow> indexOf so s = 0"
  by (auto simp add: serveOrderFor_def indexOf_def split: if_splits)

lemma serving_at_0:
  "serveOrderFor (getStartingServer st n) (getStartingReceiver st n) = Some so
   \<Longrightarrow> getServingPlayerAtPoint st 0 n = Inr (Some (getStartingServer st n))"
  by (simp add: getServingPlayerAtPoint_def Let_def)

lemma serving_normal:
  assumes so: "serveOrderFor (getStartingServer st n) (getStartingReceiver st n) = Some so"
    and p: "0 < p" and ot: "\<not> isInOvertime st n (Some p)"
  shows "getServingPlayerAtPoint st p n = Inr (js_nth so ((p + 1) mod 8 div 2))"
proof -
  have idx: "indexOf so (getStartingServer st n) = 0"
    by (rule indexOf_serveOrder [OF so])
  have steps: "\<lfloor>js_rem ((of_int p + 1) / 2) 4\<rfloor> = (p + 1) mod 8 div 2"
    using p by (intro steps_normal) simp
  have sm: "(0 + (p + 1) mod 8 div 2) smod 4 = (p + 1) mod 8 div 2"
    by (simp add: smod_nonneg)
  have "p \<noteq> 0" using p by simp
  then show ?thesis
    unfolding getServingPlayerAtPoint_def Let_def
    by (simp only: so idx steps sm ot option.case if_False if_True not_False_eq_True)
qed


lemma serving_overtime:
  assumes so: "serveOrderFor (getStartingServer st n) (getStartingReceiver st n) = Some so"
    and p: "0 < p" and ot: "isInOvertime st n (Some p)"
    and wp: "0 < win_points (gameSettings st)" and late: "win_points (gameSettings st) * 2 - 2 \<le> p"
  shows "getServingPlayerAtPoint st p n =
           Inr (js_nth so (((win_points (gameSettings st) * 2 - 1) mod 8
                            + 2 * ((p - (win_points (gameSettings st) * 2 - 2)) mod 4)) mod 8 div 2))"
proof -
  let ?k = "((win_points (gameSettings st) * 2 - 1) mod 8
              + 2 * ((p - (win_points (gameSettings st) * 2 - 2)) mod 4)) mod 8 div 2"
  have idx: "indexOf so (getStartingServer st n) = 0"
    by (rule indexOf_serveOrder [OF so])
  note steps = steps_overtime [OF wp late]
  have sm: "(0 + ?k) smod 4 = ?k"
    by (simp add: smod_nonneg)
  have "p \<noteq> 0" using p by simp
  then show ?thesis
    unfolding getServingPlayerAtPoint_def Let_def
    by (simp only: so idx steps sm ot option.case if_False if_True not_True_eq_False)
qed

lemma indexOf_receivingOrder: "receivingOrdersFor s r = Some (ro, o15, o21) \<Longrightarrow> indexOf ro r = 0"
  by (auto simp add: receivingOrdersFor_def indexOf_def split: if_splits)

lemma receiving_at_0:
  "receivingOrdersFor (getStartingServer st n) (getStartingReceiver st n) = Some ros
   \<Longrightarrow> getReceivingPlayerAtPoint st 0 n = Inr (Some (getStartingReceiver st n))"
  by (simp add: getReceivingPlayerAtPoint_def Let_def split: prod.splits)

lemma receiving_normal:
  assumes ro: "receivingOrdersFor (getStartingServer st n) (getStartingReceiver st n) = Some (ro, o15, o21)"
    and p: "0 < p" and ot: "\<not> isInOvertime st n (Some p)"
  shows "getReceivingPlayerAtPoint st p n = Inr (js_nth ro (p mod 8))"
proof -
  have idx: "indexOf ro (getStartingReceiver st n) = 0"
    by (rule indexOf_receivingOrder [OF ro])
  have sm: "(0 + p smod 8) smod 8 = p mod 8"
    using p by (simp add: smod_nonneg)
  have "p \<noteq> 0" using p by simp
  then show ?thesis
    unfolding getReceivingPlayerAtPoint_def Let_def
    by (simp only: ro idx sm ot option.case prod.case if_False if_True not_False_eq_True)
qed

lemma receiving_overtime:
  assumes ro: "receivingOrdersFor (getStartingServer st n) (getStartingReceiver st n) = Some (ro, o15, o21)"
    and p: "0 < p" and ot: "isInOvertime st n (Some p)"
  shows "getReceivingPlayerAtPoint st p n =
           Inr (js_nth (if win_points (gameSettings st) = 15 then o15 else o21) ((p - 1) mod 4))"
proof -
  have idx: "indexOf ro (getStartingReceiver st n) = 0"
    by (rule indexOf_receivingOrder [OF ro])
  have sm: "(0 + (p - 1) smod 4) smod 4 = (p - 1) mod 4"
    using p by (simp add: smod_nonneg)
  have "p \<noteq> 0" using p by simp
  then show ?thesis
    unfolding getReceivingPlayerAtPoint_def Let_def
    by (simp only: ro idx sm ot option.case prod.case if_False if_True not_True_eq_False if_distrib [of Inr]
          if_distrib [of "\<lambda>xs. js_nth xs ((p - 1) mod 4)"])
qed

lemma tables_of_valid:
  "valid_config s r \<Longrightarrow> \<exists>so ro o15 o21. serveOrderFor s r = Some so \<and> receivingOrdersFor s r = Some (ro, o15, o21)"
  unfolding valid_config_def
  by (elim disjE conjE) (simp_all add: serveOrderFor_def receivingOrdersFor_def)

lemma start_opposite: "valid_config s r \<Longrightarrow> opposite_teams (Some s) (Some r)"
  unfolding valid_config_def
  by (elim disjE conjE) (simp_all add: opposite_teams_def getPlayerTeam_def)

lemma below_8: "0 \<le> q \<Longrightarrow> q < 8 \<Longrightarrow> q = 0 \<or> q = 1 \<or> q = 2 \<or> q = 3 \<or> q = 4 \<or> q = 5 \<or> q = 6 \<or> q = (7::int)"
  by arith

lemma below_4: "0 \<le> q \<Longrightarrow> q < 4 \<Longrightarrow> q = 0 \<or> q = 1 \<or> q = 2 \<or> q = (3::int)"
  by arith

lemma normal_opposite:
  assumes "valid_config s r" and "0 \<le> q" and "q < 8"
  shows "\<exists>so ro o15 o21. serveOrderFor s r = Some so \<and> receivingOrdersFor s r = Some (ro, o15, o21)
           \<and> opposite_teams (js_nth so ((q + 1) mod 8 div 2)) (js_nth ro q)"
  using assms(1) below_8 [OF assms(2,3)] unfolding valid_config_def
  by (elim disjE conjE)
     (simp_all add: serveOrderFor_def receivingOrdersFor_def js_nth_def opposite_teams_def
        getPlayerTeam_def)


lemma overtime_opposite:
  assumes "valid_config s r" and "c = 1 \<or> c = (5::int)" and "0 \<le> q" and "q < 4"
  shows "\<exists>so ro o15 o21. serveOrderFor s r = Some so \<and> receivingOrdersFor s r = Some (ro, o15, o21)
           \<and> opposite_teams (js_nth so ((c + 2 * q) mod 8 div 2)) (js_nth o15 ((q - 1) mod 4))
           \<and> opposite_teams (js_nth so ((c + 2 * q) mod 8 div 2)) (js_nth o21 ((q - 1) mod 4))"
  using assms(1,2) below_4 [OF assms(3,4)] unfolding valid_config_def
  by (elim disjE conjE)
     (simp_all add: serveOrderFor_def receivingOrdersFor_def js_nth_def opposite_teams_def
        getPlayerTeam_def)

lemma if_both: "P x \<Longrightarrow> P y \<Longrightarrow> P (if c then x else y)"
  by simp

lemma odd_win_points_phase:
  "odd (wp::int) \<Longrightarrow> (wp * 2 - 1) mod 8 = 1 \<or> (wp * 2 - 1) mod 8 = 5"
  by presburger

lemma odd_win_points_offset:
  "odd (wp::int) \<Longrightarrow> (p - (wp * 2 - 2)) mod 4 = p mod 4"
  by presburger

text \<open>
  C1, amended. For each of the eight valid pairs of starting server and receiver, every
  setting and every point index from 0 up to 99: the serving and the receiving player
  are found and belong to different teams at point 0 and at every point played under
  the normal rules; at a point played in overtime they do whenever \<open>win_points\<close> is odd
  and positive (15 and 21 are) and the point index is at least \<open>2 * win_points - 2\<close>.
\<close>

theorem rotation_opposite_teams:
  assumes valid: "valid_config (getStartingServer st n) (getStartingReceiver st n)"
    and p: "0 \<le> p"
    and bound: "p < 100"
    and regime: "\<not> isInOvertime st n (Some p) \<or> p = 0
                 \<or> (odd (win_points (gameSettings st)) \<and> 0 < win_points (gameSettings st)
                     \<and> win_points (gameSettings st) * 2 - 2 \<le> p)"
  shows "\<exists>server receiver.
           getServingPlayerAtPoint st p n = Inr server
           \<and> getReceivingPlayerAtPoint st p n = Inr receiver
           \<and> opposite_teams server receiver"
proof (cases "p = 0")
  case True
  obtain so ro o15 o21 where
    "serveOrderFor (getStartingServer st n) (getStartingReceiver st n) = Some so"
    "receivingOrdersFor (getStartingServer st n) (getStartingReceiver st n) = Some (ro, o15, o21)"
    using tables_of_valid [OF valid] by blast
  then show ?thesis
    using True start_opposite [OF valid] by (simp add: serving_at_0 receiving_at_0)
next
  case False
  then have pos: "0 < p" using p by simp
  show ?thesis
  proof (cases "isInOvertime st n (Some p)")
    case normal: False
    have "0 \<le> p mod 8" "p mod 8 < 8" by simp_all
    then obtain so ro o15 o21 where
      so: "serveOrderFor (getStartingServer st n) (getStartingReceiver st n) = Some so" and
      ro: "receivingOrdersFor (getStartingServer st n) (getStartingReceiver st n) = Some (ro, o15, o21)" and
      opp: "opposite_teams (js_nth so ((p mod 8 + 1) mod 8 div 2)) (js_nth ro (p mod 8))"
      using normal_opposite [OF valid, of "p mod 8"] by blast
    have "(p mod 8 + 1) mod 8 = (p + 1) mod 8" by (simp add: mod_add_left_eq)
    then show ?thesis
      using opp serving_normal [OF so pos normal] receiving_normal [OF ro pos normal] by simp
  next
    case overtime: True
    let ?wp = "win_points (gameSettings st)"
    from regime overtime False have odd: "odd ?wp" and wp: "0 < ?wp" and late: "?wp * 2 - 2 \<le> p"
      by simp_all
    have "0 \<le> p mod 4" "p mod 4 < 4" by simp_all
    then obtain so ro o15 o21 where
      so: "serveOrderFor (getStartingServer st n) (getStartingReceiver st n) = Some so" and
      ro: "receivingOrdersFor (getStartingServer st n) (getStartingReceiver st n) = Some (ro, o15, o21)" and
      opp15: "opposite_teams (js_nth so (((?wp * 2 - 1) mod 8 + 2 * (p mod 4)) mod 8 div 2))
                (js_nth o15 ((p mod 4 - 1) mod 4))" and
      opp21: "opposite_teams (js_nth so (((?wp * 2 - 1) mod 8 + 2 * (p mod 4)) mod 8 div 2))
                (js_nth o21 ((p mod 4 - 1) mod 4))"
      using overtime_opposite [OF valid odd_win_points_phase [OF odd], of "p mod 4"] by blast
    let ?k = "((?wp * 2 - 1) mod 8 + 2 * (p mod 4)) mod 8 div 2"
    have r: "(p mod 4 - 1) mod 4 = (p - 1) mod 4" by (simp add: mod_diff_left_eq)
    have "opposite_teams (js_nth so ?k) (js_nth (if ?wp = 15 then o15 else o21) ((p - 1) mod 4))"
      using opp15 opp21 unfolding r by (rule if_both)
    moreover have "getServingPlayerAtPoint st p n = Inr (js_nth so ?k)"
      using serving_overtime [OF so pos overtime wp late]
      by (simp only: odd_win_points_offset [OF odd])
    ultimately show ?thesis
      using receiving_overtime [OF ro pos overtime] by blast
  qed
qed

theorem rotation_opposite_teams_witness:
  "valid_config (getStartingServer (rotation_board ''a'' ''c'' 15 21 15 14) 1)
     (getStartingReceiver (rotation_board ''a'' ''c'' 15 21 15 14) 1)
   \<and> isInOvertime (rotation_board ''a'' ''c'' 15 21 15 14) 1 (Some 29)
   \<and> (\<exists>server receiver.
         getServingPlayerAtPoint (rotation_board ''a'' ''c'' 15 21 15 14) 29 1 = Inr server
         \<and> getReceivingPlayerAtPoint (rotation_board ''a'' ''c'' 15 21 15 14) 29 1 = Inr receiver
         \<and> opposite_teams server receiver)
   \<and> \<not> isInOvertime (rotation_board ''d'' ''b'' 15 21 3 2) 1 (Some 5)
   \<and> (\<exists>server receiver.
         getServingPlayerAtPoint (rotation_board ''d'' ''b'' 15 21 3 2) 5 1 = Inr server
         \<and> getReceivingPlayerAtPoint (rotation_board ''d'' ''b'' 15 21 3 2) 5 1 = Inr receiver
         \<and> opposite_teams server receiver)"
proof -
  let ?late = "rotation_board ''a'' ''c'' 15 21 15 14"
  let ?early = "rotation_board ''d'' ''b'' 15 21 3 2"
  have v1: "valid_config (getStartingServer ?late 1) (getStartingReceiver ?late 1)"
    by code_simp
  have o1: "isInOvertime ?late 1 (Some 29)"
    by code_simp
  have r1: "\<not> isInOvertime ?late 1 (Some 29) \<or> (29::int) = 0
            \<or> (odd (win_points (gameSettings ?late)) \<and> 0 < win_points (gameSettings ?late)
                \<and> win_points (gameSettings ?late) * 2 - 2 \<le> 29)"
    by (simp add: rotation_board_def board_with_def new_scoreboard_def)
  have v2: "valid_config (getStartingServer ?early 1) (getStartingReceiver ?early 1)"
    by code_simp
  have o2: "\<not> isInOvertime ?early 1 (Some 5)"
    by code_simp
  then have r2: "\<not> isInOvertime ?early 1 (Some 5) \<or> (5::int) = 0
            \<or> (odd (win_points (gameSettings ?early)) \<and> 0 < win_points (gameSettings ?early)
                \<and> win_points (gameSettings ?early) * 2 - 2 \<le> 5)"
    by (rule disjI1)
  show ?thesis
    using v1 o1 o2 rotation_opposite_teams [OF v1 _ _ r1] rotation_opposite_teams [OF v2 _ _ r2]
    by simp
qed

text \<open>
  C1, as stated, covers every \<open>win_points\<close> and every overtime point. With win_points 16
  and the scores 16:15 (overtime), pair \<^verbatim>\<open>a\<close>, \<^verbatim>\<open>c\<close>, point 31 has \<^verbatim>\<open>a\<close> both serve and
  receive. With win_points 15, hardcap 21 and the scores 21:0, point 21 counts as
  overtime before point 28 and has no serving player at all.
\<close>

theorem rotation_opposite_teams_counterexample:
  "valid_config (getStartingServer (rotation_board ''a'' ''c'' 16 21 16 15) 1)
     (getStartingReceiver (rotation_board ''a'' ''c'' 16 21 16 15) 1)
   \<and> getServingPlayerAtPoint (rotation_board ''a'' ''c'' 16 21 16 15) 31 1 = Inr (Some ''a'')
   \<and> getReceivingPlayerAtPoint (rotation_board ''a'' ''c'' 16 21 16 15) 31 1 = Inr (Some ''a'')
   \<and> \<not> opposite_teams (Some ''a'') (Some ''a'')
   \<and> getServingPlayerAtPoint (rotation_board ''a'' ''c'' 15 21 21 0) 21 1 = Inr None
   \<and> getReceivingPlayerAtPoint (rotation_board ''a'' ''c'' 15 21 21 0) 21 1 = Inr (Some ''a'')
   \<and> \<not> opposite_teams None (Some ''a'')"
  by code_simp

lemma no_tables_of_invalid:
  "\<not> valid_config s r \<Longrightarrow> serveOrderFor s r = None \<and> receivingOrdersFor s r = None"
  by (simp add: valid_config_def serveOrderFor_def receivingOrdersFor_def)

text \<open>
  C9. For a pair of starting server and receiver outside the eight, both lookups end in
  a \<^verbatim>\<open>TypeError\<close> at every point index: \<^verbatim>\<open>serveOrder\<close> and \<^verbatim>\<open>receivingOrder\<close> stay
  \<^verbatim>\<open>undefined\<close> and \<^verbatim>\<open>indexOf\<close> is called on them. They do not return \<^verbatim>\<open>null\<close>.
\<close>

theorem rotation_lookup_throws:
  assumes "\<not> valid_config (getStartingServer st n) (getStartingReceiver st n)"
  shows "getServingPlayerAtPoint st p n = Inl TypeError
       \<and> getReceivingPlayerAtPoint st p n = Inl TypeError"
  using no_tables_of_invalid [OF assms]
  by (simp add: getServingPlayerAtPoint_def getReceivingPlayerAtPoint_def Let_def)

theorem rotation_lookup_throws_witness:
  "\<not> valid_config ''a'' ''b''
   \<and> getServingPlayerAtPoint (rotation_board ''a'' ''b'' 15 21 0 0) 0 1 = Inl TypeError
   \<and> getReceivingPlayerAtPoint (rotation_board ''a'' ''b'' 15 21 0 0) 0 1 = Inl TypeError
   \<and> getServingPlayerAtPoint new_scoreboard 3 1 = Inl TypeError
   \<and> getReceivingPlayerAtPoint new_scoreboard 3 1 = Inl TypeError
   \<and> updateCurrentPlayersDisplay new_scoreboard = Inl TypeError"
proof -
  have a: "\<not> valid_config (getStartingServer (rotation_board ''a'' ''b'' 15 21 0 0) 1)
                (getStartingReceiver (rotation_board ''a'' ''b'' 15 21 0 0) 1)"
    by code_simp
  have b: "\<not> valid_config (getStartingServer new_scoreboard 1) (getStartingReceiver new_scoreboard 1)"
    by code_simp
  have c: "\<not> valid_config ''a'' ''b''" by code_simp
  have d: "updateCurrentPlayersDisplay new_scoreboard = Inl TypeError" by code_simp
  show ?thesis
    using c d rotation_lookup_throws [OF a, of 0] rotation_lookup_throws [OF b, of 3]
    by simp
qed

lemma startingTeam_of_valid:
  "valid_config (getStartingServer st n) (getStartingReceiver st n)
   \<Longrightarrow> getStartingTeam st n = getPlayerTeam (Some (getStartingServer st n))
       \<and> (getStartingTeam st n = Some ''a'' \<or> getStartingTeam st n = Some ''b'')"
  unfolding valid_config_def
  by (elim disjE conjE) (simp_all add: getStartingTeam_def getPlayerTeam_def Let_def)

lemma serveOrder_teams:
  assumes "valid_config s r" and "0 \<le> k" and "k < 4"
  shows "\<exists>so. serveOrderFor s r = Some so
           \<and> getPlayerTeam (js_nth so k)
               = (if even k then getPlayerTeam (Some s)
                  else if getPlayerTeam (Some s) = Some ''a'' then Some ''b'' else Some ''a'')"
  using assms(1) below_4 [OF assms(2,3)] unfolding valid_config_def
  by (elim disjE conjE) (simp_all add: serveOrderFor_def js_nth_def getPlayerTeam_def)

lemma normal_step_parity: "0 < (p::int) \<Longrightarrow> even ((p + 1) mod 8 div 2) = odd ((p - 1) div 2)"
  by presburger

lemma overtime_step_parity:
  "c = 1 \<or> c = (5::int) \<Longrightarrow> even ((c + 2 * (p mod 4)) mod 8 div 2) = even p"
  by presburger

lemma getServeInfo_overtime:
  assumes "getStartingTeam st (active_set st) = Some t" and "isInOvertime st (active_set st) None"
    and "0 \<le> getTotalPointsInSet st (active_set st)"
  shows "getServeInfo st = Some \<lparr>serve_team = (if even (getTotalPointsInSet st (active_set st)) then t
                                                else if t = ''a'' then ''b'' else ''a''),
                                  serveNumber = 1, serve_isOvertime = True\<rparr>"
  using assms by (simp add: getServeInfo_def Let_def smod_nonneg even_iff_mod_2_eq_zero)

lemma getServeInfo_start:
  assumes "getStartingTeam st (active_set st) = Some t" and "\<not> isInOvertime st (active_set st) None"
    and "getTotalPointsInSet st (active_set st) = 0"
  shows "getServeInfo st = Some \<lparr>serve_team = t, serveNumber = 1, serve_isOvertime = False\<rparr>"
  using assms by (simp add: getServeInfo_def Let_def)

lemma getServeInfo_normal:
  assumes t: "getStartingTeam st (active_set st) = Some t" and ot: "\<not> isInOvertime st (active_set st) None"
    and p: "0 < getTotalPointsInSet st (active_set st)"
  shows "getServeInfo st =
           Some \<lparr>serve_team = (if even ((getTotalPointsInSet st (active_set st) - 1) div 2)
                               then (if t = ''a'' then ''b'' else ''a'') else t),
                 serveNumber = (if odd (getTotalPointsInSet st (active_set st)) then 1 else 2),
                 serve_isOvertime = False\<rparr>"
proof -
  let ?p = "getTotalPointsInSet st (active_set st)"
  have g: "\<lfloor>(of_int (?p - 1) :: rat) / 2\<rfloor> = (?p - 1) div 2" by (rule floor_half)
  have g2: "((?p - 1) div 2) smod 2 = ((?p - 1) div 2) mod 2"
    using p by (intro smod_nonneg) simp_all
  have n: "(?p - 1) smod 2 = (?p - 1) mod 2"
    using p by (intro smod_nonneg) simp_all
  have n2: "(?p - 1) mod 2 + 1 = (if odd ?p then 1 else 2)"
    by presburger
  have "?p \<noteq> 0" using p by simp
  then show ?thesis
    unfolding getServeInfo_def Let_def
    by (simp only: t ot g g2 n n2 option.case if_False even_iff_mod_2_eq_zero)
qed

lemma server_team_at_0:
  assumes valid: "valid_config (getStartingServer st n) (getStartingReceiver st n)"
  shows "getServingPlayerAtPoint st 0 n = Inr (Some (getStartingServer st n))
         \<and> getPlayerTeam (Some (getStartingServer st n)) = getStartingTeam st n"
proof -
  obtain so where "serveOrderFor (getStartingServer st n) (getStartingReceiver st n) = Some so"
    using tables_of_valid [OF valid] by blast
  then show ?thesis
    using startingTeam_of_valid [OF valid] by (simp add: serving_at_0)
qed

lemma server_team_normal:
  assumes valid: "valid_config (getStartingServer st n) (getStartingReceiver st n)"
    and t: "getStartingTeam st n = Some t"
    and p: "0 < p" and ot: "\<not> isInOvertime st n (Some p)"
  shows "\<exists>server. getServingPlayerAtPoint st p n = Inr server
           \<and> getPlayerTeam server
               = Some (if even ((p - 1) div 2) then (if t = ''a'' then ''b'' else ''a'') else t)"
proof -
  let ?k = "(p + 1) mod 8 div 2"
  have "0 \<le> ?k" "?k < 4" by simp_all
  then obtain so where
    so: "serveOrderFor (getStartingServer st n) (getStartingReceiver st n) = Some so" and
    tm: "getPlayerTeam (js_nth so ?k)
           = (if even ?k then getPlayerTeam (Some (getStartingServer st n))
              else if getPlayerTeam (Some (getStartingServer st n)) = Some ''a''
                   then Some ''b'' else Some ''a'')"
    using serveOrder_teams [OF valid, of ?k] by blast
  have st: "getPlayerTeam (Some (getStartingServer st n)) = Some t"
    using startingTeam_of_valid [OF valid] t by simp
  have ab: "t = ''a'' \<or> t = ''b''"
    using startingTeam_of_valid [OF valid] t by simp
  have "getPlayerTeam (js_nth so ?k)
          = Some (if even ((p - 1) div 2) then (if t = ''a'' then ''b'' else ''a'') else t)"
    using ab unfolding tm st normal_step_parity [OF p] by auto
  then show ?thesis
    using serving_normal [OF so p ot] by blast
qed

lemma server_team_overtime:
  assumes valid: "valid_config (getStartingServer st n) (getStartingReceiver st n)"
    and t: "getStartingTeam st n = Some t"
    and p: "0 < p" and ot: "isInOvertime st n (Some p)"
    and odd: "odd (win_points (gameSettings st))"
    and wp: "0 < win_points (gameSettings st)" and late: "win_points (gameSettings st) * 2 - 2 \<le> p"
  shows "\<exists>server. getServingPlayerAtPoint st p n = Inr server
           \<and> getPlayerTeam server = Some (if even p then t else if t = ''a'' then ''b'' else ''a'')"
proof -
  let ?wp = "win_points (gameSettings st)"
  let ?k = "((?wp * 2 - 1) mod 8 + 2 * (p mod 4)) mod 8 div 2"
  have "0 \<le> ?k" "?k < 4" by simp_all
  then obtain so where
    so: "serveOrderFor (getStartingServer st n) (getStartingReceiver st n) = Some so" and
    tm: "getPlayerTeam (js_nth so ?k)
           = (if even ?k then getPlayerTeam (Some (getStartingServer st n))
              else if getPlayerTeam (Some (getStartingServer st n)) = Some ''a''
                   then Some ''b'' else Some ''a'')"
    using serveOrder_teams [OF valid, of ?k] by blast
  have st: "getPlayerTeam (Some (getStartingServer st n)) = Some t"
    using startingTeam_of_valid [OF valid] t by simp
  have ab: "t = ''a'' \<or> t = ''b''"
    using startingTeam_of_valid [OF valid] t by simp
  have "getPlayerTeam (js_nth so ?k) = Some (if even p then t else if t = ''a'' then ''b'' else ''a'')"
    using ab unfolding tm st overtime_step_parity [OF odd_win_points_phase [OF odd]] by auto
  moreover have "getServingPlayerAtPoint st p n = Inr (js_nth so ?k)"
    using serving_overtime [OF so p ot wp late]
    by (simp only: odd_win_points_offset [OF odd])
  ultimately show ?thesis by blast
qed

text \<open>
  C8, amended. For a valid pair of starting server and receiver and a total point count
  \<open>p\<close> from 0 on and below \<^verbatim>\<open>Number.MAX_SAFE_INTEGER\<close>, \<^verbatim>\<open>getServeInfo\<close> returns a serve
  info; its serve number is 1 or 2, is
  1 at point 0 and in overtime, and under the normal rules after point 0 is 1 at odd
  and 2 at even \<open>p\<close>, the two points \<open>p\<close>, \<open>p + 1\<close> of a turn (\<open>p\<close> odd) going to the same
  team. Its team is the team of the player \<^verbatim>\<open>getServingPlayerAtPoint\<close> returns for \<open>p\<close>
  when both see the same overtime status and the point is played under the normal
  rules, or is point 0, or \<open>win_points\<close> is odd and positive and \<open>p\<close> is at least
  \<open>2 * win_points - 2\<close>.
\<close>

theorem getServeInfo_matches_rotation:
  assumes valid: "valid_config (getStartingServer st (active_set st))
                    (getStartingReceiver st (active_set st))"
    and total: "p = getTotalPointsInSet st (active_set st)"
    and nonneg: "0 \<le> p"
    and bound: "p < MAX_SAFE_INTEGER"
  shows "\<exists>info. getServeInfo st = Some info
     \<and> (serveNumber info = 1 \<or> serveNumber info = 2)
     \<and> (p = 0 \<longrightarrow> serveNumber info = 1)
     \<and> (isInOvertime st (active_set st) None \<longrightarrow> serveNumber info = 1)
     \<and> (\<not> isInOvertime st (active_set st) None \<and> 0 < p \<longrightarrow>
          serveNumber info = (if odd p then 1 else 2))
     \<and> (\<forall>st2. getStartingTeam st2 (active_set st2) = getStartingTeam st (active_set st)
              \<and> \<not> isInOvertime st (active_set st) None
              \<and> \<not> isInOvertime st2 (active_set st2) None
              \<and> odd p \<and> getTotalPointsInSet st2 (active_set st2) = p + 1 \<longrightarrow>
            (\<exists>info2. getServeInfo st2 = Some info2 \<and> serve_team info2 = serve_team info
                     \<and> serveNumber info = 1 \<and> serveNumber info2 = 2))
     \<and> (isInOvertime st (active_set st) (Some p) = isInOvertime st (active_set st) None
          \<and> (\<not> isInOvertime st (active_set st) None \<or> p = 0
              \<or> (odd (win_points (gameSettings st)) \<and> 0 < win_points (gameSettings st)
                  \<and> win_points (gameSettings st) * 2 - 2 \<le> p)) \<longrightarrow>
          (\<exists>server. getServingPlayerAtPoint st p (active_set st) = Inr server
                    \<and> getPlayerTeam server = Some (serve_team info)))"
proof -
  let ?n = "active_set st"
  obtain t where t: "getStartingTeam st ?n = Some t"
    using startingTeam_of_valid [OF valid] by blast
  note zero = server_team_at_0 [OF valid]
  show ?thesis
  proof (cases "isInOvertime st ?n None")
    case overtime: True
    note info = getServeInfo_overtime [OF t overtime nonneg [unfolded total]]
    show ?thesis
    proof (cases "p = 0")
      case True
      then show ?thesis
        using info zero t overtime total by auto
    next
      case False
      then have pos: "0 < p" using nonneg by simp
      show ?thesis
        using info overtime total pos server_team_overtime [OF valid t pos]
        by auto
    qed
  next
    case normal: False
    show ?thesis
    proof (cases "p = 0")
      case True
      note info = getServeInfo_start [OF t normal True [unfolded total]]
      show ?thesis
        using info zero t normal total True by auto
    next
      case False
      then have pos: "0 < p" using nonneg by simp
      note info = getServeInfo_normal [OF t normal pos [unfolded total]]
      have turn: "\<exists>info2. getServeInfo st2 = Some info2
                    \<and> serve_team info2 = (if even ((p - 1) div 2) then (if t = ''a'' then ''b'' else ''a'') else t)
                    \<and> serveNumber info2 = 2"
        if a: "getStartingTeam st2 (active_set st2) = getStartingTeam st ?n"
          and b: "\<not> isInOvertime st2 (active_set st2) None"
          and c: "odd p" and d: "getTotalPointsInSet st2 (active_set st2) = p + 1" for st2
      proof -
        have t2: "getStartingTeam st2 (active_set st2) = Some t" using a t by simp
        have pos2: "0 < getTotalPointsInSet st2 (active_set st2)" using d pos by simp
        have e: "(p + 1 - 1) div 2 = (p - 1) div 2 \<or> even p" by presburger
        show ?thesis
          using getServeInfo_normal [OF t2 b pos2] c e unfolding d by auto
      qed
      show ?thesis
        using info normal total pos server_team_normal [OF valid t pos] turn
        by auto
    qed
  qed
qed

theorem getServeInfo_matches_rotation_witness:
  "(\<exists>info. getServeInfo (rotation_board ''a'' ''c'' 15 21 3 2) = Some info
       \<and> serveNumber info = 1
       \<and> (\<exists>server. getServingPlayerAtPoint (rotation_board ''a'' ''c'' 15 21 3 2) 5
                      (active_set (rotation_board ''a'' ''c'' 15 21 3 2)) = Inr server
                  \<and> getPlayerTeam server = Some (serve_team info)))
   \<and> (\<exists>info. getServeInfo (rotation_board ''c'' ''b'' 15 21 15 15) = Some info
       \<and> serveNumber info = 1
       \<and> (\<exists>server. getServingPlayerAtPoint (rotation_board ''c'' ''b'' 15 21 15 15) 30
                      (active_set (rotation_board ''c'' ''b'' 15 21 15 15)) = Inr server
                  \<and> getPlayerTeam server = Some (serve_team info)))"
proof -
  let ?n = "rotation_board ''a'' ''c'' 15 21 3 2"
  let ?o = "rotation_board ''c'' ''b'' 15 21 15 15"
  have v1: "valid_config (getStartingServer ?n (active_set ?n)) (getStartingReceiver ?n (active_set ?n))"
    by code_simp
  have t1: "(5::int) = getTotalPointsInSet ?n (active_set ?n)"
    by code_simp
  have n1: "\<not> isInOvertime ?n (active_set ?n) None"
    by code_simp
  have s1: "isInOvertime ?n (active_set ?n) (Some 5) = isInOvertime ?n (active_set ?n) None"
    by code_simp
  have v2: "valid_config (getStartingServer ?o (active_set ?o)) (getStartingReceiver ?o (active_set ?o))"
    by code_simp
  have t2: "(30::int) = getTotalPointsInSet ?o (active_set ?o)"
    by code_simp
  have n2: "isInOvertime ?o (active_set ?o) None"
    by code_simp
  have s2: "isInOvertime ?o (active_set ?o) (Some 30) = isInOvertime ?o (active_set ?o) None"
    by code_simp
  have w2: "odd (win_points (gameSettings ?o)) \<and> 0 < win_points (gameSettings ?o)
            \<and> win_points (gameSettings ?o) * 2 - 2 \<le> 30"
    by (simp add: rotation_board_def board_with_def new_scoreboard_def)
  have a: "\<exists>info. getServeInfo ?n = Some info \<and> serveNumber info = 1
       \<and> (\<exists>server. getServingPlayerAtPoint ?n 5 (active_set ?n) = Inr server
                  \<and> getPlayerTeam server = Some (serve_team info))"
    using getServeInfo_matches_rotation [OF v1 t1] n1 s1
    by (auto simp add: MAX_SAFE_INTEGER_def)
  have b: "\<exists>info. getServeInfo ?o = Some info \<and> serveNumber info = 1
       \<and> (\<exists>server. getServingPlayerAtPoint ?o 30 (active_set ?o) = Inr server
                  \<and> getPlayerTeam server = Some (serve_team info))"
    using getServeInfo_matches_rotation [OF v2 t2] n2 s2 w2
    by (auto simp add: MAX_SAFE_INTEGER_def)
  from a b show ?thesis by blast
qed

text \<open>
  C8, as stated, covers overtime under every setting. With win_points 16 and the scores
  16:15, pair \<^verbatim>\<open>a\<close>, \<^verbatim>\<open>c\<close>: the serve info names team \<^verbatim>\<open>b\<close>, the serving player at
  point 31 is \<^verbatim>\<open>a\<close>. With win_points 15, hardcap 21 and 21:0 the serve info names team
  \<^verbatim>\<open>b\<close> and point 21 has no serving player. With the scores 1:0 on the page and a log
  whose second event holds 21 for team \<^verbatim>\<open>a\<close>, the serve info is computed under the
  normal rules and the serving player of point 1 under overtime.
\<close>

theorem getServeInfo_matches_rotation_counterexample:
  "valid_config (getStartingServer (rotation_board ''a'' ''c'' 16 21 16 15) 1)
     (getStartingReceiver (rotation_board ''a'' ''c'' 16 21 16 15) 1)
   \<and> active_set (rotation_board ''a'' ''c'' 16 21 16 15) = 1
   \<and> getTotalPointsInSet (rotation_board ''a'' ''c'' 16 21 16 15) 1 = 31
   \<and> getServeInfo (rotation_board ''a'' ''c'' 16 21 16 15)
       = Some \<lparr>serve_team = ''b'', serveNumber = 1, serve_isOvertime = True\<rparr>
   \<and> getServingPlayerAtPoint (rotation_board ''a'' ''c'' 16 21 16 15) 31 1 = Inr (Some ''a'')
   \<and> getPlayerTeam (Some ''a'') = Some ''a''
   \<and> getTotalPointsInSet (rotation_board ''a'' ''c'' 15 21 21 0) 1 = 21
   \<and> getServeInfo (rotation_board ''a'' ''c'' 15 21 21 0)
       = Some \<lparr>serve_team = ''b'', serveNumber = 1, serve_isOvertime = True\<rparr>
   \<and> getServingPlayerAtPoint (rotation_board ''a'' ''c'' 15 21 21 0) 21 1 = Inr None
   \<and> getTotalPointsInSet
        ((rotation_board ''a'' ''c'' 15 21 1 0)
           \<lparr>event_history := [score_event ''a'' 1 1, score_event ''a'' 1 21]\<rparr>) 1 = 1
   \<and> getServeInfo
        ((rotation_board ''a'' ''c'' 15 21 1 0)
           \<lparr>event_history := [score_event ''a'' 1 1, score_event ''a'' 1 21]\<rparr>)
       = Some \<lparr>serve_team = ''b'', serveNumber = 1, serve_isOvertime = False\<rparr>
   \<and> isInOvertime
        ((rotation_board ''a'' ''c'' 15 21 1 0)
           \<lparr>event_history := [score_event ''a'' 1 1, score_event ''a'' 1 21]\<rparr>) 1 (Some 1)
   \<and> getServingPlayerAtPoint
        ((rotation_board ''a'' ''c'' 15 21 1 0)
           \<lparr>event_history := [score_event ''a'' 1 1, score_event ''a'' 1 21]\<rparr>) 1 1 = Inr None"
  by code_simp

section \<open>Log cap: theorems\<close>

lemma returns_if:
  "(\<exists>x. a = Inr x) \<Longrightarrow> (\<exists>x. b = Inr x) \<Longrightarrow> \<exists>x. (if c then a else b) = Inr x"
  by simp

lemma serving_returns:
  assumes "serveOrderFor (getStartingServer st n) (getStartingReceiver st n) = Some so"
  shows "\<exists>x. getServingPlayerAtPoint st p n = Inr x"
  unfolding getServingPlayerAtPoint_def Let_def assms option.case
  by (intro returns_if) blast+

lemma receiving_returns:
  assumes "receivingOrdersFor (getStartingServer st n) (getStartingReceiver st n) = Some (ro, o15, o21)"
  shows "\<exists>x. getReceivingPlayerAtPoint st p n = Inr x"
  unfolding getReceivingPlayerAtPoint_def Let_def assms option.case prod.case
  by (intro returns_if) blast+

lemma display_returns:
  assumes "valid_config (getStartingServer st (active_set st)) (getStartingReceiver st (active_set st))"
  shows "\<exists>d. updateCurrentPlayersDisplay st = Inr d"
proof -
  obtain so ro o15 o21 where
    so: "serveOrderFor (getStartingServer st (active_set st)) (getStartingReceiver st (active_set st)) = Some so" and
    ro: "receivingOrdersFor (getStartingServer st (active_set st)) (getStartingReceiver st (active_set st)) = Some (ro, o15, o21)"
    using tables_of_valid [OF assms] by blast
  obtain x where x: "getServingPlayerAtPoint st (getTotalPointsInSet st (active_set st)) (active_set st) = Inr x"
    using serving_returns [OF so] by blast
  obtain y where y: "getReceivingPlayerAtPoint st (getTotalPointsInSet st (active_set st)) (active_set st) = Inr y"
    using receiving_returns [OF ro] by blast
  show ?thesis
    unfolding updateCurrentPlayersDisplay_def Let_def
    by (simp add: x y split: option.splits)
qed

lemma scoreInput_frame:
  "active_set (scoreInput st team n newScore sq) = active_set st
   \<and> dom_starting_server (scoreInput st team n newScore sq) = dom_starting_server st
   \<and> dom_starting_receiver (scoreInput st team n newScore sq) = dom_starting_receiver st
   \<and> authorized (scoreInput st team n newScore sq) = authorized st"
  by (simp add: scoreInput_def removeEventHistoryEvents_def Let_def split: option.splits)

lemma oldScore_other_team:
  "\<forall>e\<in>set (event_history st). ev_team e \<noteq> Some team
   \<Longrightarrow> scoreInput_oldScore st team n isSquadScore = 0"
proof -
  assume "\<forall>e\<in>set (event_history st). ev_team e \<noteq> Some team"
  then have "find (\<lambda>ev. ev_type ev = (if isSquadScore then ''squad_score'' else ''score'')
                         \<and> ev_team ev = Some team
                         \<and> (isSquadScore \<or> ev_set ev = SetNum n))
               (rev (event_history st)) = None"
    by (auto simp add: find_None_iff)
  then show ?thesis
    by (simp add: scoreInput_oldScore_def Let_def)
qed

lemma scoreInput_appends:
  "\<not> (newScore < scoreInput_oldScore st team n isSquadScore \<and> \<not> isSquadScore)
   \<Longrightarrow> event_history (scoreInput st team n newScore isSquadScore)
       = event_history st @
           [\<lparr>ev_type = (if isSquadScore then ''squad_score'' else ''score''),
             ev_team = Some team, ev_score = Some newScore,
             ev_set = (if isSquadScore then SetSquad else SetNum n)\<rparr>]"
  by (auto simp add: scoreInput_def Let_def)

lemma display_throws:
  assumes "\<not> valid_config (getStartingServer st (active_set st)) (getStartingReceiver st (active_set st))"
  shows "updateCurrentPlayersDisplay st = Inl TypeError"
  using no_tables_of_invalid [OF assms]
  by (simp add: updateCurrentPlayersDisplay_def getServingPlayerAtPoint_def Let_def)

lemma handler_without_upload:
  assumes "\<not> authorized st
           \<or> \<not> valid_config (getStartingServer st (active_set st)) (getStartingReceiver st (active_set st))"
  shows "event_history (fst (scoreInputHandler st team n newScore isSquadScore))
           = event_history (scoreInput st team n newScore isSquadScore)"
proof -
  let ?s1 = "scoreInput st team n newScore isSquadScore"
  note fr = scoreInput_frame [of st team n newScore isSquadScore]
  show ?thesis
  proof (cases "valid_config (getStartingServer st (active_set st)) (getStartingReceiver st (active_set st))")
    case True
    then have "\<not> authorized ?s1" using assms fr by simp
    then have "fst (uploadData ?s1) = ?s1" by (simp add: uploadData_def)
    then show ?thesis
      by (simp add: scoreInputHandler_def Let_def split: sum.splits)
  next
    case False
    then have "\<not> valid_config (getStartingServer ?s1 (active_set ?s1)) (getStartingReceiver ?s1 (active_set ?s1))"
      using fr by (simp add: getStartingServer_def getStartingReceiver_def)
    then show ?thesis
      by (simp add: scoreInputHandler_def Let_def display_throws)
  qed
qed

lemma handler_throws:
  assumes "\<not> valid_config (getStartingServer st (active_set st)) (getStartingReceiver st (active_set st))"
  shows "snd (scoreInputHandler st team n newScore isSquadScore) = Some TypeError"
proof -
  let ?s1 = "scoreInput st team n newScore isSquadScore"
  note fr = scoreInput_frame [of st team n newScore isSquadScore]
  have "\<not> valid_config (getStartingServer ?s1 (active_set ?s1)) (getStartingReceiver ?s1 (active_set ?s1))"
    using assms fr by (simp add: getStartingServer_def getStartingReceiver_def)
  then show ?thesis
    by (simp add: scoreInputHandler_def Let_def display_throws)
qed

text \<open>
  C6, amended. \<^verbatim>\<open>handleEventHistory\<close> leaves the most recent 200 entries of the log, the
  oldest dropped first, so the log holds at most 200 entries after each call of it.
  \<^verbatim>\<open>uploadData\<close> calls it for an authorised user before it writes the log, so the log
  handed to the store is the most recent 200 entries. A score input that appends, made
  by an authorised user on a board with a valid starting pair in the active set, ends
  with the most recent 200 entries of the appended log, the new event last.
\<close>

theorem event_log_cap:
  "length (event_history (handleEventHistory st)) \<le> 200
   \<and> event_history (handleEventHistory st)
       = drop (length (event_history st) - 200) (event_history st)
   \<and> (authorized st \<longrightarrow>
        snd (uploadData st) = Some (drop (length (event_history st) - 200) (event_history st))
        \<and> event_history (fst (uploadData st))
            = drop (length (event_history st) - 200) (event_history st))
   \<and> (authorized st
        \<and> valid_config (getStartingServer st (active_set st)) (getStartingReceiver st (active_set st))
        \<and> \<not> (newScore < scoreInput_oldScore st team set_no isSquadScore \<and> \<not> isSquadScore) \<longrightarrow>
        snd (scoreInputHandler st team set_no newScore isSquadScore) = None
        \<and> event_history (fst (scoreInputHandler st team set_no newScore isSquadScore))
            = drop (length (event_history st) + 1 - 200)
                (event_history st @
                   [\<lparr>ev_type = (if isSquadScore then ''squad_score'' else ''score''),
                     ev_team = Some team, ev_score = Some newScore,
                     ev_set = (if isSquadScore then SetSquad else SetNum set_no)\<rparr>])
        \<and> length (event_history (fst (scoreInputHandler st team set_no newScore isSquadScore))) \<le> 200)"
proof -
  have cut: "length (event_history (handleEventHistory s)) \<le> 200
      \<and> event_history (handleEventHistory s) = drop (length (event_history s) - 200) (event_history s)"
    for s by (simp add: handleEventHistory_def)
  have up: "snd (uploadData s) = Some (drop (length (event_history s) - 200) (event_history s))
        \<and> event_history (fst (uploadData s)) = drop (length (event_history s) - 200) (event_history s)"
    if "authorized s" for s
    using that cut [of s] by (simp add: uploadData_def Let_def)
  have handler: "snd (scoreInputHandler st team set_no newScore isSquadScore) = None
        \<and> event_history (fst (scoreInputHandler st team set_no newScore isSquadScore))
            = drop (length (event_history st) + 1 - 200)
                (event_history st @
                   [\<lparr>ev_type = (if isSquadScore then ''squad_score'' else ''score''),
                     ev_team = Some team, ev_score = Some newScore,
                     ev_set = (if isSquadScore then SetSquad else SetNum set_no)\<rparr>])
        \<and> length (event_history (fst (scoreInputHandler st team set_no newScore isSquadScore))) \<le> 200"
    if a: "authorized st"
      and v: "valid_config (getStartingServer st (active_set st)) (getStartingReceiver st (active_set st))"
      and app: "\<not> (newScore < scoreInput_oldScore st team set_no isSquadScore \<and> \<not> isSquadScore)"
  proof -
    let ?s1 = "scoreInput st team set_no newScore isSquadScore"
    note fr = scoreInput_frame [of st team set_no newScore isSquadScore]
    have v1: "valid_config (getStartingServer ?s1 (active_set ?s1)) (getStartingReceiver ?s1 (active_set ?s1))"
      using v fr by (simp add: getStartingServer_def getStartingReceiver_def)
    obtain d where d: "updateCurrentPlayersDisplay ?s1 = Inr d"
      using display_returns [OF v1] by blast
    have a1: "authorized ?s1" using a fr by simp
    have log: "event_history ?s1 = event_history st @
                   [\<lparr>ev_type = (if isSquadScore then ''squad_score'' else ''score''),
                     ev_team = Some team, ev_score = Some newScore,
                     ev_set = (if isSquadScore then SetSquad else SetNum set_no)\<rparr>]"
      using app by (auto simp add: scoreInput_def Let_def)
    have h: "scoreInputHandler st team set_no newScore isSquadScore = (fst (uploadData ?s1), None)"
      by (simp add: scoreInputHandler_def Let_def d)
    show ?thesis
      unfolding h using up [OF a1] log by simp
  qed
  show ?thesis
    using cut [of st] up [of st] handler by blast
qed

theorem event_log_cap_witness:
  "authorized full_log_board
   \<and> length (event_history full_log_board) = 200
   \<and> snd (scoreInputHandler full_log_board ''b'' 1 1 False) = None
   \<and> length (event_history (fst (scoreInputHandler full_log_board ''b'' 1 1 False))) = 200
   \<and> last (event_history (fst (scoreInputHandler full_log_board ''b'' 1 1 False)))
       = score_event ''b'' 1 1
   \<and> snd (uploadData full_log_board) = Some (event_history full_log_board)"
proof -
  have a: "authorized full_log_board"
    by (simp add: full_log_board_def rotation_board_def board_with_def new_scoreboard_def)
  have l: "event_history full_log_board = replicate 200 (score_event ''a'' 1 1)"
    by (simp add: full_log_board_def)
  have v: "valid_config (getStartingServer full_log_board (active_set full_log_board))
             (getStartingReceiver full_log_board (active_set full_log_board))"
    by (simp add: full_log_board_def rotation_board_def board_with_def new_scoreboard_def
          getStartingServer_def getStartingReceiver_def valid_config_def)
  have "scoreInput_oldScore full_log_board ''b'' 1 False = 0"
    by (rule oldScore_other_team) (simp add: l score_event_def)
  then have app: "\<not> (1 < scoreInput_oldScore full_log_board ''b'' 1 False \<and> \<not> False)"
    by simp
  from event_log_cap [of full_log_board 1 "''b''" 1 False] a v app
  have h1: "snd (scoreInputHandler full_log_board ''b'' 1 1 False) = None"
    and h2: "event_history (fst (scoreInputHandler full_log_board ''b'' 1 1 False))
            = drop (length (event_history full_log_board) + 1 - 200)
                (event_history full_log_board @
                   [\<lparr>ev_type = ''score'', ev_team = Some ''b'', ev_score = Some 1,
                     ev_set = SetNum 1\<rparr>])"
    and u: "snd (uploadData full_log_board)
              = Some (drop (length (event_history full_log_board) - 200) (event_history full_log_board))"
    by simp_all
  show ?thesis
    using a h1 u unfolding h2 l
    by (simp add: score_event_def)
qed

text \<open>
  C6, as stated, has every append followed by the cut. On a log of 200 entries the
  score input of a user who is not authorised for the channel leaves 201 entries, as
  \<^verbatim>\<open>uploadData\<close> returns before the cut; so does a score input on a fresh page, where the
  display update throws before \<^verbatim>\<open>uploadData\<close> is called; so does an input on the set
  counter, whose handler appends and calls nothing that cuts.
\<close>

theorem event_log_cap_counterexample:
  "length (event_history (full_log_board\<lparr>authorized := False\<rparr>)) = 200
   \<and> length (event_history
        (fst (scoreInputHandler (full_log_board\<lparr>authorized := False\<rparr>) ''b'' 1 1 False))) = 201
   \<and> snd (scoreInputHandler
        (new_scoreboard\<lparr>event_history := replicate 200 (score_event ''a'' 1 1)\<rparr>) ''b'' 1 1 False)
       = Some TypeError
   \<and> length (event_history
        (fst (scoreInputHandler
           (new_scoreboard\<lparr>event_history := replicate 200 (score_event ''a'' 1 1)\<rparr>)
           ''b'' 1 1 False))) = 201
   \<and> length (event_history (setCounterInput full_log_board)) = 201"
proof -
  let ?u = "full_log_board\<lparr>authorized := False\<rparr>"
  let ?f = "new_scoreboard\<lparr>event_history := replicate 200 (score_event ''a'' 1 1)\<rparr>"
  have lu: "event_history ?u = replicate 200 (score_event ''a'' 1 1)"
    by (simp add: full_log_board_def)
  have lf: "event_history ?f = replicate 200 (score_event ''a'' 1 1)"
    by simp
  have ou: "scoreInput_oldScore ?u ''b'' 1 False = 0"
    by (rule oldScore_other_team) (simp add: lu score_event_def)
  have "scoreInput_oldScore ?f ''b'' 1 False = 0"
    by (rule oldScore_other_team) (simp add: score_event_def)
  then have sf: "length (event_history (scoreInput ?f ''b'' 1 1 False)) = 201"
    by (subst scoreInput_appends) simp_all
  have su: "length (event_history (scoreInput ?u ''b'' 1 1 False)) = 201"
    using ou by (subst scoreInput_appends) (simp_all add: lu)
  have nu: "\<not> authorized ?u" by simp
  have nf: "\<not> valid_config (getStartingServer ?f (active_set ?f)) (getStartingReceiver ?f (active_set ?f))"
    by (simp add: new_scoreboard_def getStartingServer_def getStartingReceiver_def valid_config_def)
  have 1: "length (event_history ?u) = 200" by (simp add: lu)
  have 2: "length (event_history (fst (scoreInputHandler ?u ''b'' 1 1 False))) = 201"
    using handler_without_upload [of ?u "''b''" 1 1 False] nu su by simp
  have 3: "snd (scoreInputHandler ?f ''b'' 1 1 False) = Some TypeError"
    by (rule handler_throws [OF nf])
  have 4: "length (event_history (fst (scoreInputHandler ?f ''b'' 1 1 False))) = 201"
    using handler_without_upload [of ?f "''b''" 1 1 False] nf sf by simp
  have 5: "length (event_history (setCounterInput full_log_board)) = 201"
    by (simp add: setCounterInput_def full_log_board_def)
  from 1 2 3 4 5 show ?thesis by (intro conjI)
qed

section \<open>Statistics: theorems\<close>

lemma player_of_team:
  "getPlayerTeam p \<noteq> None \<Longrightarrow> p = Some ''a'' \<or> p = Some ''b'' \<or> p = Some ''c'' \<or> p = Some ''d''"
  by (auto simp add: getPlayerTeam_def split: if_splits)

lemma team_of_player:
  "getPlayerTeam p = Some t \<Longrightarrow> t = ''a'' \<or> t = ''b''"
  by (auto simp add: getPlayerTeam_def split: if_splits)

lemma update_team_keeps_players:
  assumes "t = ''a'' \<or> t = ''b''"
  shows "\<exists>stats'. update_team t f stats = Inr stats' \<and> players stats' = players stats"
  using assms by (auto simp add: update_team_def)

lemma update_player_keep:
  assumes "players_present stats" and "getPlayerTeam p \<noteq> None"
    and "\<And>q. sideoutOpportunities (f q) = sideoutOpportunities q"
  shows "\<exists>stats'. update_player p f stats = Inr stats' \<and> players_present stats'
           \<and> total_sideoutOpportunities stats' = total_sideoutOpportunities stats"
  using assms(1) player_of_team [OF assms(2)]
  by (elim disjE)
     (auto simp add: update_player_def players_present_def total_sideoutOpportunities_def
        sideoutOpportunities_of_def assms(3))

lemma update_player_bump:
  assumes "players_present stats" and "getPlayerTeam p \<noteq> None"
    and "\<And>q. sideoutOpportunities (f q) = sideoutOpportunities q + 1"
  shows "\<exists>stats'. update_player p f stats = Inr stats' \<and> players_present stats'
           \<and> total_sideoutOpportunities stats' = total_sideoutOpportunities stats + 1"
  using assms(1) player_of_team [OF assms(2)]
  by (elim disjE)
     (auto simp add: update_player_def players_present_def total_sideoutOpportunities_def
        sideoutOpportunities_of_def assms(3))


lemma and_then_Inr: "and_then (Inr x) f = f x"
  by (simp add: and_then_def)

lemma countPoint_counts:
  assumes pres: "players_present stats"
    and sp: "getPlayerTeam servingPlayer \<noteq> None" and rp: "getPlayerTeam receivingPlayer \<noteq> None"
  shows "\<exists>stats'. countPoint stats team servingPlayer receivingPlayer = Inr stats'
           \<and> players_present stats'
           \<and> total_sideoutOpportunities stats' = total_sideoutOpportunities stats + 1"
proof -
  obtain sTeam where sTeam: "getPlayerTeam servingPlayer = Some sTeam"
    using sp by blast
  have ab: "sTeam = ''a'' \<or> sTeam = ''b''"
    by (rule team_of_player [OF sTeam])
  obtain s1 where s1: "update_team sTeam (\<lambda>t. t\<lparr>breakOpportunities := breakOpportunities t + 1\<rparr>) stats = Inr s1"
    and p1: "players s1 = players stats"
    using update_team_keeps_players [OF ab] by blast
  have pres1: "players_present s1" and tot1: "total_sideoutOpportunities s1 = total_sideoutOpportunities stats"
    using pres p1 by (simp_all add: players_present_def total_sideoutOpportunities_def sideoutOpportunities_of_def)
  obtain s2 where s2: "update_player servingPlayer
        (\<lambda>q. q\<lparr>player_breakOpportunities := player_breakOpportunities q + 1\<rparr>) s1 = Inr s2"
    and pres2: "players_present s2"
    and tot2: "total_sideoutOpportunities s2 = total_sideoutOpportunities s1"
    using update_player_keep [OF pres1 sp, of "\<lambda>q. q\<lparr>player_breakOpportunities := player_breakOpportunities q + 1\<rparr>"]
    by auto
  obtain s3 where s3: "update_player receivingPlayer
        (\<lambda>q. q\<lparr>sideoutOpportunities := sideoutOpportunities q + 1\<rparr>) s2 = Inr s3"
    and pres3: "players_present s3"
    and tot3: "total_sideoutOpportunities s3 = total_sideoutOpportunities s2 + 1"
    using update_player_bump [OF pres2 rp, of "\<lambda>q. q\<lparr>sideoutOpportunities := sideoutOpportunities q + 1\<rparr>"]
    by auto
  have last: "\<exists>stats'. (if getPlayerTeam servingPlayer = Some team
               then and_then (update_team team (\<lambda>t. t\<lparr>breaks := breaks t + 1\<rparr>) s3)
                      (\<lambda>s4. update_player servingPlayer
                               (\<lambda>q. q\<lparr>player_breaks := player_breaks q + 1\<rparr>) s4)
               else update_player receivingPlayer (\<lambda>q. q\<lparr>sideouts := sideouts q + 1\<rparr>) s3) = Inr stats'
             \<and> players_present stats'
             \<and> total_sideoutOpportunities stats' = total_sideoutOpportunities s3"
  proof (cases "getPlayerTeam servingPlayer = Some team")
    case True
    then have "team = ''a'' \<or> team = ''b''" using ab sTeam by simp
    then obtain s4 where s4: "update_team team (\<lambda>t. t\<lparr>breaks := breaks t + 1\<rparr>) s3 = Inr s4"
      and p4: "players s4 = players s3"
      using update_team_keeps_players by blast
    have pres4: "players_present s4" and tot4: "total_sideoutOpportunities s4 = total_sideoutOpportunities s3"
      using pres3 p4 by (simp_all add: players_present_def total_sideoutOpportunities_def sideoutOpportunities_of_def)
    show ?thesis
      using True s4 tot4
        update_player_keep [OF pres4 sp, of "\<lambda>q. q\<lparr>player_breaks := player_breaks q + 1\<rparr>"]
      by (auto simp add: and_then_def)
  next
    case False
    then show ?thesis
      using update_player_keep [OF pres3 rp, of "\<lambda>q. q\<lparr>sideouts := sideouts q + 1\<rparr>"]
      by auto
  qed
  have "countPoint stats team servingPlayer receivingPlayer
          = (if getPlayerTeam servingPlayer = Some team
               then and_then (update_team team (\<lambda>t. t\<lparr>breaks := breaks t + 1\<rparr>) s3)
                      (\<lambda>s4. update_player servingPlayer
                               (\<lambda>q. q\<lparr>player_breaks := player_breaks q + 1\<rparr>) s4)
               else update_player receivingPlayer (\<lambda>q. q\<lparr>sideouts := sideouts q + 1\<rparr>) s3)"
    unfolding countPoint_def Let_def
    by (simp only: sTeam option.case s1 s2 s3 and_then_Inr)
  then show ?thesis
    using last tot1 tot2 tot3 by simp
qed


lemma opposite_teams_defined:
  "opposite_teams x y \<Longrightarrow> getPlayerTeam x \<noteq> None \<and> getPlayerTeam y \<noteq> None"
  by (auto simp add: opposite_teams_def)

lemma server_has_team:
  assumes valid: "valid_config (getStartingServer st n) (getStartingReceiver st n)"
    and p: "0 \<le> p"
    and regime: "p = 0 \<or> \<not> isInOvertime st n (Some p)
                 \<or> (0 < win_points (gameSettings st) \<and> win_points (gameSettings st) * 2 - 2 \<le> p)"
  shows "\<exists>server. getServingPlayerAtPoint st p n = Inr server \<and> getPlayerTeam server \<noteq> None"
proof -
  obtain t where t: "getStartingTeam st n = Some t"
    using startingTeam_of_valid [OF valid] by blast
  show ?thesis
  proof (cases "p = 0")
    case True
    then show ?thesis using server_team_at_0 [OF valid] t by auto
  next
    case False
    then have pos: "0 < p" using p by simp
    show ?thesis
    proof (cases "isInOvertime st n (Some p)")
      case False
      then show ?thesis using server_team_normal [OF valid t pos] by auto
    next
      case True
      let ?wp = "win_points (gameSettings st)"
      let ?k = "((?wp * 2 - 1) mod 8 + 2 * ((p - (?wp * 2 - 2)) mod 4)) mod 8 div 2"
      from regime True \<open>p \<noteq> 0\<close> have wp: "0 < ?wp" and late: "?wp * 2 - 2 \<le> p" by simp_all
      have "0 \<le> ?k" "?k < 4" by simp_all
      then obtain so where
        so: "serveOrderFor (getStartingServer st n) (getStartingReceiver st n) = Some so" and
        tm: "getPlayerTeam (js_nth so ?k)
               = (if even ?k then getPlayerTeam (Some (getStartingServer st n))
                  else if getPlayerTeam (Some (getStartingServer st n)) = Some ''a''
                       then Some ''b'' else Some ''a'')"
        using serveOrder_teams [OF valid, of ?k] by blast
      have "getPlayerTeam (Some (getStartingServer st n)) = Some t"
        using startingTeam_of_valid [OF valid] t by simp
      then have "getPlayerTeam (js_nth so ?k) \<noteq> None"
        unfolding tm by simp
      then show ?thesis
        using serving_overtime [OF so pos True wp late] by blast
    qed
  qed
qed

lemma receiver_has_team:
  assumes valid: "valid_config (getStartingServer st n) (getStartingReceiver st n)"
    and p: "0 \<le> p"
  shows "\<exists>receiver. getReceivingPlayerAtPoint st p n = Inr receiver \<and> getPlayerTeam receiver \<noteq> None"
proof (cases "p = 0")
  case True
  obtain so ro o15 o21 where
    "receivingOrdersFor (getStartingServer st n) (getStartingReceiver st n) = Some (ro, o15, o21)"
    using tables_of_valid [OF valid] by blast
  then have "getReceivingPlayerAtPoint st 0 n = Inr (Some (getStartingReceiver st n))"
    by (rule receiving_at_0)
  then show ?thesis
    using True opposite_teams_defined [OF start_opposite [OF valid]] by simp
next
  case False
  then have pos: "0 < p" using p by simp
  show ?thesis
  proof (cases "isInOvertime st n (Some p)")
    case normal: False
    have "0 \<le> p mod 8" "p mod 8 < 8" by simp_all
    then obtain so ro o15 o21 where
      ro: "receivingOrdersFor (getStartingServer st n) (getStartingReceiver st n) = Some (ro, o15, o21)" and
      opp: "opposite_teams (js_nth so ((p mod 8 + 1) mod 8 div 2)) (js_nth ro (p mod 8))"
      using normal_opposite [OF valid, of "p mod 8"] by blast
    show ?thesis
      using receiving_normal [OF ro pos normal] opposite_teams_defined [OF opp] by simp
  next
    case overtime: True
    have "0 \<le> p mod 4" "p mod 4 < 4" by simp_all
    then obtain so ro o15 o21 where
      ro: "receivingOrdersFor (getStartingServer st n) (getStartingReceiver st n) = Some (ro, o15, o21)" and
      opp15: "opposite_teams (js_nth so ((1 + 2 * (p mod 4)) mod 8 div 2))
                (js_nth o15 ((p mod 4 - 1) mod 4))" and
      opp21: "opposite_teams (js_nth so ((1 + 2 * (p mod 4)) mod 8 div 2))
                (js_nth o21 ((p mod 4 - 1) mod 4))"
      using overtime_opposite [OF valid, of 1 "p mod 4"] by blast
    have r: "(p mod 4 - 1) mod 4 = (p - 1) mod 4" by (simp add: mod_diff_left_eq)
    have "getPlayerTeam (js_nth (if win_points (gameSettings st) = 15 then o15 else o21)
            ((p - 1) mod 4)) \<noteq> None"
      using opposite_teams_defined [OF opp15] opposite_teams_defined [OF opp21]
      unfolding r by (simp split: if_split)
    then show ?thesis
      using receiving_overtime [OF ro pos overtime] by blast
  qed
qed

lemma processPoint_counts:
  assumes valid: "valid_config (getStartingServer st n) (getStartingReceiver st n)"
    and n: "n \<noteq> 0"
    and ev: "ev_set e = SetNum n" "truthy_string (ev_team e)"
    and i: "0 \<le> i"
    and regime: "i = 0 \<or> \<not> isInOvertime st n (Some i)
                 \<or> (0 < win_points (gameSettings st) \<and> win_points (gameSettings st) * 2 - 2 \<le> i)"
    and pres: "players_present stats"
  shows "\<exists>stats'. processPoint st stats e i = Inr stats' \<and> players_present stats'
           \<and> total_sideoutOpportunities stats' = total_sideoutOpportunities stats + 1"
proof -
  obtain evTeam where evTeam: "ev_team e = Some evTeam" "evTeam \<noteq> []"
    using ev(2) by (auto simp add: truthy_string_def split: option.splits)
  obtain server where sv: "getServingPlayerAtPoint st i n = Inr server"
    and svt: "getPlayerTeam server \<noteq> None"
    using server_has_team [OF valid i regime] by blast
  obtain receiver where rc: "getReceivingPlayerAtPoint st i n = Inr receiver"
    and rct: "getPlayerTeam receiver \<noteq> None"
    using receiver_has_team [OF valid i] by blast
  have "processPoint st stats e i = countPoint stats (toLowerCase evTeam) server receiver"
    using evTeam ev(1) n sv rc by (simp add: processPoint_def Let_def and_then_Inr)
  then show ?thesis
    using countPoint_counts [OF pres svt rct] by simp
qed

lemma processPoints_counts:
  assumes valid: "valid_config (getStartingServer st n) (getStartingReceiver st n)"
    and n: "n \<noteq> 0"
  shows "(\<forall>e\<in>set es. ev_set e = SetNum n \<and> truthy_string (ev_team e))
    \<Longrightarrow> 0 \<le> i
    \<Longrightarrow> (\<forall>j. i \<le> j \<and> j < i + int (length es) \<longrightarrow>
            j = 0 \<or> \<not> isInOvertime st n (Some j)
            \<or> (0 < win_points (gameSettings st) \<and> win_points (gameSettings st) * 2 - 2 \<le> j))
    \<Longrightarrow> players_present stats
    \<Longrightarrow> \<exists>stats'. processPoints st stats es i = Inr stats'
           \<and> total_sideoutOpportunities stats' = total_sideoutOpportunities stats + length es"
proof (induction es arbitrary: stats i)
  case Nil
  then show ?case by simp
next
  case (Cons e es)
  have here: "i = 0 \<or> \<not> isInOvertime st n (Some i)
              \<or> (0 < win_points (gameSettings st) \<and> win_points (gameSettings st) * 2 - 2 \<le> i)"
    using Cons.prems(3) by simp
  obtain s1 where s1: "processPoint st stats e i = Inr s1" and pres1: "players_present s1"
    and tot1: "total_sideoutOpportunities s1 = total_sideoutOpportunities stats + 1"
    using processPoint_counts [OF valid n _ _ Cons.prems(2) here Cons.prems(4), of e] Cons.prems(1)
    by auto
  have rest: "\<forall>j. i + 1 \<le> j \<and> j < i + 1 + int (length es) \<longrightarrow>
            j = 0 \<or> \<not> isInOvertime st n (Some j)
            \<or> (0 < win_points (gameSettings st) \<and> win_points (gameSettings st) * 2 - 2 \<le> j)"
    using Cons.prems(3) by simp
  obtain s2 where "processPoints st s1 es (i + 1) = Inr s2"
    and "total_sideoutOpportunities s2 = total_sideoutOpportunities s1 + length es"
    using Cons.IH [OF _ _ rest pres1] Cons.prems(1,2) by auto
  then show ?case
    using s1 tot1 by (simp add: and_then_Inr)
qed

lemma initial_statistics_ok:
  "players_present initial_statistics \<and> total_sideoutOpportunities initial_statistics = 0"
  by (simp add: players_present_def initial_statistics_def total_sideoutOpportunities_def
        sideoutOpportunities_of_def Let_def)

text \<open>
  C7, amended. For a set, numbered from 1, whose starting server and receiver are one
  of the eight valid pairs, and a log in which no point of the set after the first counts
  as overtime before index \<open>2 * win_points - 2\<close> (\<open>win_points\<close> positive): the statistics
  of the set are computed, and their \<^verbatim>\<open>sideoutOpportunities\<close>, summed over the players
  \<^verbatim>\<open>a\<close>, \<^verbatim>\<open>b\<close>, \<^verbatim>\<open>c\<close>, \<^verbatim>\<open>d\<close>, equal the number of events \<^verbatim>\<open>getScoreHistory\<close> returns
  for the set.
\<close>

theorem calculateStatistics_sideoutOpportunities:
  assumes valid: "valid_config (getStartingServer st set_no) (getStartingReceiver st set_no)"
    and set_no: "1 \<le> set_no"
    and served: "\<forall>i. 0 < i \<and> i < int (length (getScoreHistory st set_no))
                      \<and> isInOvertime st set_no (Some i) \<longrightarrow>
                   0 < win_points (gameSettings st) \<and> win_points (gameSettings st) * 2 - 2 \<le> i"
  shows "\<exists>stats. calculateStatistics_set st set_no = Inr stats
           \<and> total_sideoutOpportunities stats = length (getScoreHistory st set_no)"
proof -
  have n: "set_no \<noteq> 0" using set_no by simp
  have evs: "\<forall>e\<in>set (getScoreHistory st set_no). ev_set e = SetNum set_no \<and> truthy_string (ev_team e)"
    by (simp add: getScoreHistory_def Let_def)
  have regime: "\<forall>j. 0 \<le> j \<and> j < 0 + int (length (getScoreHistory st set_no)) \<longrightarrow>
            j = 0 \<or> \<not> isInOvertime st set_no (Some j)
            \<or> (0 < win_points (gameSettings st) \<and> win_points (gameSettings st) * 2 - 2 \<le> j)"
    using served by force
  show ?thesis
    using processPoints_counts [OF valid n evs _ regime, of initial_statistics] initial_statistics_ok
    by (simp add: calculateStatistics_set_def Let_def)
qed

theorem calculateStatistics_sideoutOpportunities_witness:
  "length (getScoreHistory
       ((rotation_board ''a'' ''c'' 15 21 2 1)
          \<lparr>event_history := [score_event ''a'' 1 1, score_event ''b'' 1 1, set_event 2,
                              score_event ''a'' 2 1, score_event ''a'' 1 2]\<rparr>) 1) = 3
   \<and> (\<exists>stats. calculateStatistics_set
       ((rotation_board ''a'' ''c'' 15 21 2 1)
          \<lparr>event_history := [score_event ''a'' 1 1, score_event ''b'' 1 1, set_event 2,
                              score_event ''a'' 2 1, score_event ''a'' 1 2]\<rparr>) 1 = Inr stats
         \<and> total_sideoutOpportunities stats = 3)"
proof -
  let ?bd = "(rotation_board ''a'' ''c'' 15 21 2 1)
          \<lparr>event_history := [score_event ''a'' 1 1, score_event ''b'' 1 1, set_event 2,
                              score_event ''a'' 2 1, score_event ''a'' 1 2]\<rparr>"
  have v: "valid_config (getStartingServer ?bd 1) (getStartingReceiver ?bd 1)"
    by code_simp
  have len: "length (getScoreHistory ?bd 1) = 3"
    by code_simp
  have o1: "\<not> isInOvertime ?bd 1 (Some 1)"
    by code_simp
  have o2: "\<not> isInOvertime ?bd 1 (Some 2)"
    by code_simp
  have "i = 1 \<or> i = 2" if "0 < i" "i < 3" for i :: int
    using that by arith
  then have served: "\<forall>i. 0 < i \<and> i < int (length (getScoreHistory ?bd 1))
                      \<and> isInOvertime ?bd 1 (Some i) \<longrightarrow>
                   0 < win_points (gameSettings ?bd) \<and> win_points (gameSettings ?bd) * 2 - 2 \<le> i"
    using o1 o2 unfolding len by auto
  show ?thesis
    using calculateStatistics_sideoutOpportunities [OF v _ served] len by simp
qed

lemma thrown_TypeError: "isl r \<Longrightarrow> r = Inl TypeError"
  by (cases r) (simp_all, metis js_error.exhaust)

text \<open>
  C7, as stated, holds for every log and set. On a fresh page, with no starting server
  chosen, the statistics of a set with one score event end in a \<^verbatim>\<open>TypeError\<close>. So do
  those of a set played to 5:1 under win_points 5 and hardcap 5 with the pair \<^verbatim>\<open>a\<close>,
  \<^verbatim>\<open>c\<close>: the last point counts as overtime at index 5, before index 8, and has no
  serving player.
\<close>

theorem calculateStatistics_sideoutOpportunities_counterexample:
  "length (getScoreHistory (new_scoreboard\<lparr>event_history := [score_event ''a'' 1 1]\<rparr>) 1) = 1
   \<and> calculateStatistics_set (new_scoreboard\<lparr>event_history := [score_event ''a'' 1 1]\<rparr>) 1
       = Inl TypeError
   \<and> valid_config
        (getStartingServer ((rotation_board ''a'' ''c'' 5 5 5 1)
           \<lparr>event_history := [score_event ''a'' 1 1, score_event ''a'' 1 2, score_event ''a'' 1 3,
                               score_event ''b'' 1 1, score_event ''a'' 1 4, score_event ''a'' 1 5]\<rparr>) 1)
        (getStartingReceiver ((rotation_board ''a'' ''c'' 5 5 5 1)
           \<lparr>event_history := [score_event ''a'' 1 1, score_event ''a'' 1 2, score_event ''a'' 1 3,
                               score_event ''b'' 1 1, score_event ''a'' 1 4, score_event ''a'' 1 5]\<rparr>) 1)
   \<and> length (getScoreHistory ((rotation_board ''a'' ''c'' 5 5 5 1)
           \<lparr>event_history := [score_event ''a'' 1 1, score_event ''a'' 1 2, score_event ''a'' 1 3,
                               score_event ''b'' 1 1, score_event ''a'' 1 4, score_event ''a'' 1 5]\<rparr>) 1) = 6
   \<and> getServingPlayerAtPoint ((rotation_board ''a'' ''c'' 5 5 5 1)
           \<lparr>event_history := [score_event ''a'' 1 1, score_event ''a'' 1 2, score_event ''a'' 1 3,
                               score_event ''b'' 1 1, score_event ''a'' 1 4, score_event ''a'' 1 5]\<rparr>) 5 1
       = Inr None
   \<and> calculateStatistics_set ((rotation_board ''a'' ''c'' 5 5 5 1)
           \<lparr>event_history := [score_event ''a'' 1 1, score_event ''a'' 1 2, score_event ''a'' 1 3,
                               score_event ''b'' 1 1, score_event ''a'' 1 4, score_event ''a'' 1 5]\<rparr>) 1
       = Inl TypeError"
proof -
  let ?fresh = "new_scoreboard\<lparr>event_history := [score_event ''a'' 1 1]\<rparr>"
  let ?short = "(rotation_board ''a'' ''c'' 5 5 5 1)
           \<lparr>event_history := [score_event ''a'' 1 1, score_event ''a'' 1 2, score_event ''a'' 1 3,
                               score_event ''b'' 1 1, score_event ''a'' 1 4, score_event ''a'' 1 5]\<rparr>"
  have a: "length (getScoreHistory ?fresh 1) = 1" by code_simp
  have "isl (calculateStatistics_set ?fresh 1)" by code_simp
  then have b: "calculateStatistics_set ?fresh 1 = Inl TypeError" by (rule thrown_TypeError)
  have c: "valid_config (getStartingServer ?short 1) (getStartingReceiver ?short 1)" by code_simp
  have d: "length (getScoreHistory ?short 1) = 6" by code_simp
  have e: "getServingPlayerAtPoint ?short 5 1 = Inr None" by code_simp
  have "isl (calculateStatistics_set ?short 1)" by code_simp
  then have f: "calculateStatistics_set ?short 1 = Inl TypeError" by (rule thrown_TypeError)
  from a b c d e f show ?thesis by (intro conjI)
qed

end
